theory Spec2Isabelle
  imports Main "HOL-Library.Word"
begin

unbundle bit_operations_syntax

section \<open>HouseDCC: the PiDCC transport and encoder (housedcc\_pidcc.c)\<close>

text \<open>
  C \<open>int\<close> and \<open>time_t\<close> values are modelled as \<open>int\<close>. The one place
  where the module's arithmetic leaves the 32-bit range on a value it can receive is
  \<open>abs\<close> at \<open>INT_MIN\<close> in \<open>housedcc_pidcc_move\<close>, which is written out
  below. The bitwise operators \<open>&\<close>, \<open>^\<close>
  and \<open>>>\<close> on \<open>int\<close> are the two's complement operations \<open>AND\<close>, \<open>XOR\<close> and
  \<open>drop_bit\<close> of HOL. The 16-bit \<open>short\<close> holding a vehicle's function bits is a
  \<open>16 word\<close>.
\<close>

subsection \<open>Text formatting (\<open>snprintf\<close> with \<open>%d\<close>)\<close>

fun dec_nat :: "nat \<Rightarrow> string" where
  "dec_nat n =
     (if n < 10 then [''0123456789'' ! n]
      else dec_nat (n div 10) @ [''0123456789'' ! (n mod 10)])"

definition dec :: "int \<Rightarrow> string" where
  "dec i = (if i < 0 then CHR ''-'' # dec_nat (nat (- i)) else dec_nat (nat i))"

text \<open>The format \<open>"send %d %d"\<close>; the 32-byte buffer never truncates two C ints.\<close>

definition send_line :: "int \<Rightarrow> int \<Rightarrow> string" where
  "send_line a b = ''send '' @ dec a @ '' '' @ dec b"

definition pin_line :: "int \<Rightarrow> int \<Rightarrow> string" where
  "pin_line a b = ''pin '' @ dec a @ '' '' @ dec b"

subsection \<open>Module state\<close>

text \<open>
  The static variables of the module. \<open>capture\<close> is the list of
  \<open>housecapture_record\<close> calls (action, text) and \<open>transmitted\<close> the byte strings
  that \<open>write\<close> put on the pipe to the worker, both in order.
\<close>

record pidcc =
  PiDccProcess :: int
  PiDccTransmit :: int
  PiDccListen :: int
  PiDccState :: char
  PiDccStateDeadline :: int
  GpioPinA :: int
  GpioPinB :: int
  capture :: "(string \<times> string) list"
  transmitted :: "string list"

definition pidcc_initial :: pidcc where
  "pidcc_initial =
     \<lparr>PiDccProcess = 0, PiDccTransmit = 0, PiDccListen = 0,
      PiDccState = CHR 0x00, PiDccStateDeadline = 0, GpioPinA = 0, GpioPinB = 0,
      capture = [], transmitted = []\<rparr>"

text \<open>
  What the operating system answers during one supervision tick: the value of
  \<open>waitpid\<close>, the descriptor pairs of the two \<open>pipe\<close> calls (\<open>None\<close> when the
  call fails) and the value of \<open>fork\<close> in the parent.
\<close>

record os_reply =
  os_waitpid :: int
  os_listen_pipe :: "(int \<times> int) option"
  os_transmit_pipe :: "(int \<times> int) option"
  os_fork :: int

definition housedcc_pidcc_enabled :: "pidcc \<Rightarrow> bool" where
  "housedcc_pidcc_enabled st \<longleftrightarrow> GpioPinA st > 0 \<or> GpioPinB st > 0"

text \<open>
  \<open>housedcc_pidcc_write\<close>. The argument \<open>wr\<close> is what the system call
  \<open>write\<close> returns if it is made (the number of bytes it took, or a value
  \<open>\<le> 0\<close> on failure).
\<close>

definition housedcc_pidcc_write :: "int \<Rightarrow> pidcc \<Rightarrow> string \<Rightarrow> int \<times> pidcc" where
  "housedcc_pidcc_write wr st text =
     (let submit = housedcc_pidcc_enabled st;
          st1 = st\<lparr>capture := capture st @ [(if submit then ''WRITE'' else ''BUILT'', text)]\<rparr>
      in if \<not> submit then (0, st1)
         else if wr \<le> 0 then (0, st1)
         else (1, st1\<lparr>transmitted := transmitted st1 @ [take (nat wr) (text @ [CHR 0x0A])]\<rparr>))"

definition housedcc_pidcc_config :: "int \<Rightarrow> pidcc \<Rightarrow> int \<Rightarrow> int \<Rightarrow> pidcc" where
  "housedcc_pidcc_config wr st pina pinb =
     (let st1 = st\<lparr>GpioPinA := pina, GpioPinB := pinb\<rparr>
      in if \<not> housedcc_pidcc_enabled st1 then st1
         else snd (housedcc_pidcc_write wr st1 (pin_line (GpioPinA st1) (GpioPinB st1))))"

text \<open>
  \<open>housedcc_pidcc_decode\<close>; \<open>now\<close> is the value of \<open>time(0)\<close>. The recorded
  text is \<open>line + 2\<close>, which on a line of one character lies past its terminator.
\<close>

definition housedcc_pidcc_decode :: "int \<Rightarrow> pidcc \<Rightarrow> string \<Rightarrow> pidcc" where
  "housedcc_pidcc_decode now st line =
     (case line of
        [] \<Rightarrow> st
      | c # _ \<Rightarrow>
          if c = CHR ''#'' then
            st\<lparr>capture := capture st @ [(''IDLE'', drop 2 line)], PiDccState := c\<rparr>
          else if c = CHR ''%'' then
            st\<lparr>capture := capture st @ [(''BUSY'', drop 2 line)], PiDccState := c,
               PiDccStateDeadline := now + 3\<rparr>
          else if c = CHR ''*'' then
            st\<lparr>capture := capture st @ [(''FULL'', drop 2 line)], PiDccState := c,
               PiDccStateDeadline := now + 3\<rparr>
          else if c = CHR ''!'' then
            st\<lparr>capture := capture st @ [(''ERROR'', drop 2 line)]\<rparr>
          else if c = CHR ''$'' then
            st\<lparr>capture := capture st @ [(''DEBUG'', drop 2 line)]\<rparr>
          else st)"

definition speed2cssss :: "int list" where
  "speed2cssss =
     [0, 0x2, 0x12, 0x3, 0x13,
      0x4, 0x14, 0x5, 0x15, 0x6,
      0x16, 0x7, 0x17, 0x8, 0x18,
      0x9, 0x19, 0xa, 0x1a, 0xb,
      0x1b, 0xc, 0x1c, 0xd, 0x1d,
      0xe, 0x1e, 0xf, 0x1f]"

definition INT_MIN :: int where
  "INT_MIN = - 2147483648"

text \<open>
  \<open>abs\<close> of the C library on an \<open>int\<close>. The absolute value of \<open>INT_MIN\<close> does
  not fit an \<open>int\<close>; on the two's complement machines the program runs on the
  negation wraps around and \<open>INT_MIN\<close> comes back.
\<close>

definition c_abs :: "int \<Rightarrow> int" where
  "c_abs x = (if x = INT_MIN then INT_MIN else \<bar>x\<bar>)"

text \<open>
  Reading \<open>xs[i]\<close> in a C array: \<open>None\<close> is a read outside the array, on
  which the program has no defined result (at a large negative index it is killed).
\<close>

definition array_read :: "int list \<Rightarrow> int \<Rightarrow> int option" where
  "array_read xs i = (if 0 \<le> i \<and> i < int (length xs) then Some (xs ! nat i) else None)"

text \<open>
  \<open>housedcc_pidcc_move\<close>. The result \<open>None\<close> is the call that does not return
  normally: the test \<open>speed > 28\<close> has no lower bound, so the negative value that
  \<open>abs\<close> gives at \<open>INT_MIN\<close> goes on to index the speed table.
\<close>

definition housedcc_pidcc_move ::
  "int \<Rightarrow> pidcc \<Rightarrow> int \<Rightarrow> int \<Rightarrow> (int \<times> pidcc) option" where
  "housedcc_pidcc_move wr st address speed =
     (if address \<le> 0 \<or> address \<ge> 128 then Some (0, st)
      else if PiDccState st = CHR ''*'' then Some (0, st)
      else
        let dir = (if speed > 0 then 0x20 else 0);
            speed = c_abs speed
        in if speed > 28 then Some (0, st)
           else case array_read speed2cssss speed of
                  None \<Rightarrow> None
                | Some cssss \<Rightarrow>
                    Some (housedcc_pidcc_write wr st
                            (send_line (address AND 0x7f) (0x40 + dir + (cssss AND 0x1f)))))"

definition housedcc_pidcc_stop :: "int \<Rightarrow> pidcc \<Rightarrow> int \<Rightarrow> int \<Rightarrow> int \<times> pidcc" where
  "housedcc_pidcc_stop wr st address emergency =
     (if address < 0 \<or> address \<ge> 128 then (0, st)
      else housedcc_pidcc_write wr st
             (send_line (address AND 0x7f) (0x40 + (if emergency \<noteq> 0 then 1 else 0))))"

definition housedcc_pidcc_function :: "int \<Rightarrow> pidcc \<Rightarrow> int \<Rightarrow> int \<Rightarrow> int \<times> pidcc" where
  "housedcc_pidcc_function wr st address instruction =
     (if address \<ge> 128 then (0, st)
      else if PiDccState st = CHR ''*'' then (0, st)
      else housedcc_pidcc_write wr st (send_line (address AND 0x7f) instruction))"

definition housedcc_pidcc_accessory ::
  "int \<Rightarrow> pidcc \<Rightarrow> int \<Rightarrow> int \<Rightarrow> int \<Rightarrow> int \<times> pidcc" where
  "housedcc_pidcc_accessory wr st address device val =
     (if address \<ge> 512 then (0, st)
      else if PiDccState st = CHR ''*'' then (0, st)
      else
        let val = (if val \<noteq> 0 then 0x08 else 0);
            device = device AND 0x0f
        in housedcc_pidcc_write wr st
             (send_line (0x80 + (address AND 0x3f))
                (0x80 + (0 XOR (drop_bit 2 (address AND 0x1c0))) + val + device)))"

definition housedcc_pidcc_launch :: "os_reply \<Rightarrow> pidcc \<Rightarrow> pidcc" where
  "housedcc_pidcc_launch os st =
     (case os_listen_pipe os of
        None \<Rightarrow> st
      | Some listen_pipe \<Rightarrow>
          (case os_transmit_pipe os of
             None \<Rightarrow> st
           | Some transmit_pipe \<Rightarrow>
               let st1 = st\<lparr>PiDccProcess := os_fork os\<rparr>
               in if PiDccProcess st1 < 0 then st1
                  else st1\<lparr>PiDccTransmit := snd transmit_pipe,
                          PiDccListen := fst listen_pipe\<rparr>))"

definition housedcc_pidcc_deceased :: "os_reply \<Rightarrow> pidcc \<Rightarrow> bool \<times> pidcc" where
  "housedcc_pidcc_deceased os st =
     (if PiDccProcess st \<le> 0 then (True, st)
      else if os_waitpid os = PiDccProcess st then
        (let st1 = st\<lparr>PiDccProcess := 0\<rparr>;
             st2 = (if PiDccTransmit st1 > 0 then st1\<lparr>PiDccTransmit := 0\<rparr> else st1);
             st3 = (if PiDccListen st2 > 0 then st2\<lparr>PiDccListen := 0\<rparr> else st2)
         in (True, st3))
      else (False, st))"

text \<open>
  \<open>housedcc_pidcc_periodic\<close>: the readiness timeout, then the supervision of the
  worker process. The model follows the parent process (in the child, \<open>fork\<close>
  returning 0, the program image is replaced by the worker).
\<close>

definition housedcc_pidcc_periodic :: "os_reply \<Rightarrow> pidcc \<Rightarrow> int \<Rightarrow> pidcc" where
  "housedcc_pidcc_periodic os st now =
     (let st1 =
        (if PiDccState st = CHR ''*'' then
           (if PiDccStateDeadline st < now then
              st\<lparr>PiDccState := CHR ''#'', capture := capture st @ [(''TIMEOUT'', [])]\<rparr>
            else st)
         else st)
      in if now mod 5 = 0 then
           (case housedcc_pidcc_deceased os st1 of
              (True, st2) \<Rightarrow>
                housedcc_pidcc_launch os
                  (st2\<lparr>capture := capture st2 @ [(''ERROR'', ''PiDCC died'')]\<rparr>)
            | (False, st2) \<Rightarrow> st2)
         else st1)"

section \<open>The fleet of vehicles (housedcc\_fleet.c)\<close>

text \<open>
  Names are C strings in 15-byte buffers: \<open>snprintf\<close> keeps the first 14 characters.
  A vehicle's \<open>model\<close> pointer into the table of models is the index of the slot it
  points to; the embedding does not follow a pointer left behind when \<open>realloc\<close> moves
  the table. The \<open>char\<close> holding a function index is read as a signed byte.
\<close>

record DccFunction =
  fn_name :: string
  fn_index :: int

record DccModel =
  model_name :: string
  model_type :: int
  model_functions :: "DccFunction list"

record DccVehicle =
  veh_id :: string
  veh_address :: int
  veh_speed :: int
  veh_functions :: "16 word"
  veh_model :: "nat option"

record fleet =
  Models :: "DccModel list"
  Vehicles :: "DccVehicle list"

definition fleet_initial :: fleet where
  "fleet_initial = \<lparr>Models = [], Vehicles = []\<rparr>"

text \<open>
  The scanning loop \<open>for (i = 0; i < n; ++i) if (P (xs[i])) break;\<close>: the value of
  \<open>i\<close> after the loop, that is the first position where \<open>P\<close> holds, or \<open>n\<close>.
\<close>

definition first_match :: "('a \<Rightarrow> bool) \<Rightarrow> 'a list \<Rightarrow> nat" where
  "first_match P xs = length (takeWhile (\<lambda>x. \<not> P x) xs)"

definition scan :: "('a \<Rightarrow> bool) \<Rightarrow> 'a list \<Rightarrow> int" where
  "scan P xs = (let i = first_match P xs in if i < length xs then int i else - 1)"

definition housedcc_fleet_find_model :: "DccModel list \<Rightarrow> string \<Rightarrow> int" where
  "housedcc_fleet_find_model ms model =
     (if model = [] then - 1 else scan (\<lambda>m. model = model_name m) ms)"

definition housedcc_fleet_find :: "DccVehicle list \<Rightarrow> string \<Rightarrow> int" where
  "housedcc_fleet_find vs ident = scan (\<lambda>v. ident = veh_id v) vs"

definition housedcc_fleet_find_address :: "DccVehicle list \<Rightarrow> int \<Rightarrow> int" where
  "housedcc_fleet_find_address vs address = scan (\<lambda>v. address = veh_address v) vs"

definition VEHICLE_TYPE_NODCC :: int where "VEHICLE_TYPE_NODCC = 0"
definition VEHICLE_TYPE_CAR :: int where "VEHICLE_TYPE_CAR = 1"
definition VEHICLE_TYPE_ENGINE :: int where "VEHICLE_TYPE_ENGINE = 2"

definition housedcc_fleet_totype :: "string \<Rightarrow> int" where
  "housedcc_fleet_totype type =
     (if type = ''engine'' then VEHICLE_TYPE_ENGINE
      else if type = ''locomotive'' then VEHICLE_TYPE_ENGINE
      else if type = ''car'' then VEHICLE_TYPE_CAR
      else if type = ''dummy'' then VEHICLE_TYPE_NODCC
      else VEHICLE_TYPE_NODCC)"

subsection \<open>Declaring a model\<close>

fun atoi_digits :: "int \<Rightarrow> string \<Rightarrow> int" where
  "atoi_digits acc [] = acc"
| "atoi_digits acc (c # cs) =
     (if c \<in> set ''0123456789''
      then atoi_digits (acc * 10 + int (first_match (\<lambda>d. d = c) ''0123456789'')) cs
      else acc)"

text \<open>\<open>atoi\<close> on text whose value fits an \<open>int\<close>.\<close>

definition atoi :: "string \<Rightarrow> int" where
  "atoi s =
     (case dropWhile (\<lambda>c. c \<in> set [CHR '' '', CHR 0x09, CHR 0x0A, CHR 0x0B, CHR 0x0C, CHR 0x0D]) s of
        [] \<Rightarrow> 0
      | c # cs \<Rightarrow>
          if c = CHR ''-'' then - atoi_digits 0 cs
          else if c = CHR ''+'' then atoi_digits 0 cs
          else atoi_digits 0 (c # cs))"

text \<open>
  One entry of the \<open>functions\<close> argument, \<open>"name"\<close> or \<open>"name:index"\<close>: the
  text is copied (14 characters), the index starts at \<open>-1\<close>, and a colon splits
  the name from the index, which is cut to a \<open>char\<close>.
\<close>

definition declare_function :: "string \<Rightarrow> DccFunction" where
  "declare_function text =
     (let name = take 14 text;
          front = takeWhile (\<lambda>c. c \<noteq> CHR '':'') name
      in if CHR '':'' \<in> set name
         then \<lparr>fn_name = front,
               fn_index = sint (word_of_int (atoi (drop (Suc (length front)) name)) :: 8 word)\<rparr>
         else \<lparr>fn_name = name, fn_index = - 1\<rparr>)"

text \<open>
  \<open>housedcc_fleet_declare\<close>; \<open>count\<close> is the length of \<open>functions\<close>. A slot
  taken fresh from \<open>realloc\<close> has every field that is read later written first.
\<close>

definition housedcc_fleet_declare :: "fleet \<Rightarrow> string \<Rightarrow> string \<Rightarrow> string list \<Rightarrow> fleet" where
  "housedcc_fleet_declare fl model type functions =
     (let found = housedcc_fleet_find_model (Models fl) model;
          (ms, cursor) =
            (if found < 0 then
               (let c = first_match (\<lambda>m. model_name m = []) (Models fl);
                    ms = (if c \<ge> length (Models fl)
                          then Models fl @ [\<lparr>model_name = [], model_type = 0, model_functions = []\<rparr>]
                          else Models fl)
                in (ms[c := (ms ! c)\<lparr>model_name := take 14 model\<rparr>], c))
             else (Models fl, nat found))
      in fl\<lparr>Models := ms[cursor := (ms ! cursor)
              \<lparr>model_type := housedcc_fleet_totype type,
               model_functions := map declare_function (take 16 functions)\<rparr>]\<rparr>)"

subsection \<open>Adding and deleting vehicles\<close>

definition housedcc_fleet_valid_address :: "int \<Rightarrow> bool" where
  "housedcc_fleet_valid_address address \<longleftrightarrow> address > 0 \<and> address < 128"

definition housedcc_fleet_add :: "fleet \<Rightarrow> string \<Rightarrow> string option \<Rightarrow> int \<Rightarrow> fleet" where
  "housedcc_fleet_add fl ident model address =
     (if \<not> housedcc_fleet_valid_address address then fl
      else
        let thismodel =
              (case model of
                 None \<Rightarrow> None
               | Some m \<Rightarrow>
                   (let c = housedcc_fleet_find_model (Models fl) m
                    in if c \<ge> 0 then Some (nat c) else None));
            found = housedcc_fleet_find (Vehicles fl) ident;
            synonym = housedcc_fleet_find_address (Vehicles fl) address
        in if synonym \<ge> 0 \<and> found \<noteq> synonym then fl
           else
             let (vs, cursor) =
                   (if found < 0 then
                      (let c = first_match (\<lambda>v. veh_id v = []) (Vehicles fl);
                           vs = (if c \<ge> length (Vehicles fl)
                                 then Vehicles fl @
                                   [\<lparr>veh_id = [], veh_address = 0, veh_speed = 0,
                                     veh_functions = 0, veh_model = None\<rparr>]
                                 else Vehicles fl)
                       in (vs[c := (vs ! c)\<lparr>veh_id := take 14 ident\<rparr>], c))
                    else (Vehicles fl, nat found))
             in fl\<lparr>Vehicles := vs[cursor := (vs ! cursor)
                     \<lparr>veh_address := address, veh_speed := 0, veh_functions := 0,
                      veh_model := thismodel\<rparr>]\<rparr>)"

definition housedcc_fleet_delete :: "fleet \<Rightarrow> string \<Rightarrow> fleet" where
  "housedcc_fleet_delete fl ident =
     (let cursor = housedcc_fleet_find (Vehicles fl) ident
      in if cursor \<ge> 0 then
           fl\<lparr>Vehicles := (Vehicles fl)[nat cursor := (Vehicles fl ! nat cursor)\<lparr>veh_id := []\<rparr>]\<rparr>
         else
           let cursor = housedcc_fleet_find_model (Models fl) ident
           in if cursor \<ge> 0 then
                fl\<lparr>Models := (Models fl)[nat cursor := (Models fl ! nat cursor)\<lparr>model_name := []\<rparr>]\<rparr>
              else fl)"

definition housedcc_fleet_exists :: "fleet \<Rightarrow> string \<Rightarrow> bool" where
  "housedcc_fleet_exists fl ident \<longleftrightarrow> housedcc_fleet_find (Vehicles fl) ident \<ge> 0"

subsection \<open>Commands on vehicles\<close>

text \<open>
  \<open>housedcc_fleet_move\<close> returns what \<open>housedcc_pidcc_move\<close> returns, so it is
  \<open>None\<close> when that call does not return.
\<close>

definition housedcc_fleet_move ::
  "int \<Rightarrow> fleet \<Rightarrow> pidcc \<Rightarrow> string \<Rightarrow> int \<Rightarrow> (int \<times> fleet \<times> pidcc) option" where
  "housedcc_fleet_move wr fl pd ident speed =
     (let cursor = housedcc_fleet_find (Vehicles fl) ident
      in if cursor < 0 then Some (0, fl, pd)
         else
           let speed = (if speed < - 31 then - 31 else if speed > 31 then 31 else speed);
               c = nat cursor;
               fl1 = fl\<lparr>Vehicles := (Vehicles fl)[c := (Vehicles fl ! c)\<lparr>veh_speed := speed\<rparr>]\<rparr>
           in case housedcc_pidcc_move wr pd (veh_address (Vehicles fl1 ! c)) speed of
                None \<Rightarrow> None
              | Some (r, pd1) \<Rightarrow> Some (r, fl1, pd1))"

definition housedcc_fleet_stop ::
  "int \<Rightarrow> fleet \<Rightarrow> pidcc \<Rightarrow> string \<Rightarrow> int \<Rightarrow> int \<times> fleet \<times> pidcc" where
  "housedcc_fleet_stop wr fl pd ident emergency =
     (let cursor = housedcc_fleet_find (Vehicles fl) ident
      in if cursor < 0 then (0, fl, pd)
         else
           let c = nat cursor;
               fl1 = fl\<lparr>Vehicles := (Vehicles fl)[c := (Vehicles fl ! c)\<lparr>veh_speed := 0\<rparr>]\<rparr>;
               (r, pd1) = housedcc_pidcc_stop wr pd (veh_address (Vehicles fl1 ! c)) emergency
           in (r, fl1, pd1))"

definition housedcc_fleet_stopped :: "fleet \<Rightarrow> fleet" where
  "housedcc_fleet_stopped fl =
     fl\<lparr>Vehicles := map (\<lambda>v. if veh_id v \<noteq> [] then v\<lparr>veh_speed := 0\<rparr> else v) (Vehicles fl)\<rparr>"

text \<open>
  \<open>short mask = 1 << (index - 1)\<close>. The shift is defined by the C standard for
  counts 0 to 30 and the result is then cut to 16 bits; for any other count the
  behaviour is undefined, and the model takes what the platform yields as the
  parameter \<open>ub\<close>.
\<close>

definition function_mask :: "(int \<Rightarrow> 16 word) \<Rightarrow> int \<Rightarrow> 16 word" where
  "function_mask ub index =
     (if 1 \<le> index \<and> index \<le> 31 then word_of_int (2 ^ nat (index - 1)) else ub index)"

text \<open>
  The grouped instruction byte that \<open>housedcc_fleet_set\<close> derives from the index of
  the function and the updated function bits; \<open>None\<close> is the last branch of the
  source, which returns 0 for an invalid auxiliary function index.
\<close>

definition function_instruction :: "int \<Rightarrow> 16 word \<Rightarrow> int option" where
  "function_instruction index functions =
     (if index \<le> 4 \<or> index = 13 then
        Some (0x80 + uint (functions AND 0xf)
                + (if functions AND 0x1000 \<noteq> 0 then 0x10 else 0))
      else if index \<le> 8 then Some (0xb0 + uint (drop_bit 4 functions AND 0xf))
      else if index \<le> 12 then Some (0xa0 + uint (drop_bit 8 functions AND 0xf))
      else None)"

definition housedcc_fleet_set ::
  "(int \<Rightarrow> 16 word) \<Rightarrow> int \<Rightarrow> fleet \<Rightarrow> pidcc \<Rightarrow> string \<Rightarrow> string \<Rightarrow> int
     \<Rightarrow> int \<times> fleet \<times> pidcc" where
  "housedcc_fleet_set ub wr fl pd ident name state =
     (let cursor = housedcc_fleet_find (Vehicles fl) ident
      in if cursor < 0 then (0, fl, pd)
         else
           let c = nat cursor
           in case veh_model (Vehicles fl ! c) of
                None \<Rightarrow> (0, fl, pd)
              | Some m \<Rightarrow>
                  let model = Models fl ! m;
                      i = first_match (\<lambda>f. name = fn_name f) (model_functions model)
                  in if i \<ge> length (model_functions model) then (0, fl, pd)
                     else
                       let index = fn_index (model_functions model ! i);
                           mask = function_mask ub index;
                           v = Vehicles fl ! c;
                           functions = (if state \<noteq> 0 then veh_functions v OR mask
                                        else veh_functions v AND NOT mask);
                           fl1 = fl\<lparr>Vehicles := (Vehicles fl)[c := v\<lparr>veh_functions := functions\<rparr>]\<rparr>
                       in case function_instruction index functions of
                            None \<Rightarrow> (0, fl1, pd)
                          | Some instruction \<Rightarrow>
                              (let (r, pd1) =
                                     housedcc_pidcc_function wr pd (veh_address v) instruction
                               in (r, fl1, pd1)))"

section \<open>Derived notions\<close>

text \<open>
  The inverse of the speed table, read off the table itself: the step whose entry is
  the given five-bit code, if there is one.
\<close>

definition cssss2speed :: "int \<Rightarrow> nat option" where
  "cssss2speed c = map_of (zip speed2cssss [0..<length speed2cssss]) c"

text \<open>A module state with its pins configured, and a tick on which the system is quiet.\<close>

definition pidcc_live :: pidcc where
  "pidcc_live = pidcc_initial\<lparr>GpioPinA := 17, GpioPinB := 18\<rparr>"

definition os_quiet :: os_reply where
  "os_quiet = \<lparr>os_waitpid = 0, os_listen_pipe = None, os_transmit_pipe = None, os_fork = - 1\<rparr>"

text \<open>
  A fleet to test on: the model E8 with a headlight, a bell and a horn declared with
  index 0, and the engine UP844 at address 44; then the same fleet after the engine
  was set to step 10 forward and its headlight switched on.
\<close>

definition fleet_demo :: fleet where
  "fleet_demo =
     housedcc_fleet_add
       (housedcc_fleet_declare fleet_initial ''E8'' ''engine'' [''Light:13'', ''Bell:1'', ''Horn:0''])
       ''UP844'' (Some ''E8'') 44"

definition fleet_running :: fleet where
  "fleet_running =
     (let (r1, fl1, pd1) = the (housedcc_fleet_move 32 fleet_demo pidcc_live ''UP844'' 10);
          (r2, fl2, pd2) = housedcc_fleet_set (\<lambda>_. 0) 32 fl1 pd1 ''UP844'' ''Light'' 1
      in fl2)"

section \<open>Facts about the encoder\<close>

lemma and_127_id: "0 \<le> a \<Longrightarrow> a < 128 \<Longrightarrow> a AND 127 = (a::int)"
proof -
  assume "0 \<le> a" "a < 128"
  then have "take_bit 7 a = a" by (simp add: take_bit_int_eq_self)
  then have "a AND mask 7 = a" by (simp add: take_bit_eq_mask)
  then show ?thesis by (simp add: mask_eq_exp_minus_1)
qed

lemma speed_table_checked:
  "list_all (\<lambda>n. (\<forall>d \<in> set [0, 0x20].
       0x40 + d + (speed2cssss ! n AND 0x1f) = (0x40 OR d OR (speed2cssss ! n AND 0x1f))
     \<and> cssss2speed ((0x40 OR d OR (speed2cssss ! n AND 0x1f)) AND 0x1f) = Some n)) [0..<29]"
  by code_simp

lemma speed_table_entry:
  assumes "n < 29" "d = 0 \<or> d = 0x20"
  shows "0x40 + d + (speed2cssss ! n AND 0x1f) = (0x40 OR d OR (speed2cssss ! n AND 0x1f))"
    and "cssss2speed ((0x40 OR d OR (speed2cssss ! n AND 0x1f)) AND 0x1f) = Some n"
  using assms speed_table_checked by (auto simp: list_all_iff)

lemma speed_table_inj: "inj_on (\<lambda>n. speed2cssss ! n AND 0x1f) {0..28}"
proof (rule inj_onI)
  fix x y
  assume a: "x \<in> {0..28::nat}" "y \<in> {0..28}"
    "speed2cssss ! x AND 0x1f = speed2cssss ! y AND 0x1f"
  then have "x < 29" "y < 29" by auto
  from speed_table_entry(2)[OF this(1), of 0] speed_table_entry(2)[OF this(2), of 0] a(3)
  show "x = y" by simp
qed

lemma c_abs_eq: "s \<noteq> INT_MIN \<Longrightarrow> c_abs s = \<bar>s\<bar>"
  by (simp add: c_abs_def)

lemma c_abs_small: "\<bar>s\<bar> \<le> 31 \<Longrightarrow> c_abs s = \<bar>s\<bar>"
  by (auto simp: c_abs_def INT_MIN_def)

lemma speed_table_read:
  "0 \<le> i \<Longrightarrow> i \<le> 28 \<Longrightarrow> array_read speed2cssss i = Some (speed2cssss ! nat i)"
  by (simp add: array_read_def speed2cssss_def)

lemma move_in_range:
  assumes "1 \<le> a" "a \<le> 127" "\<bar>s\<bar> \<le> 28"
  shows "housedcc_pidcc_move wr st a s =
           Some (if PiDccState st = CHR ''*'' then (0, st)
                 else housedcc_pidcc_write wr st
                        (send_line a (0x40 OR (if s > 0 then 0x20 else 0)
                                          OR (speed2cssss ! nat \<bar>s\<bar> AND 0x1f))))"
proof -
  have n: "nat \<bar>s\<bar> < 29" using assms(3) by simp
  have a: "a AND 127 = a" using assms by (simp add: and_127_id)
  have c: "c_abs s = \<bar>s\<bar>" using assms(3) by (simp add: c_abs_small)
  have r: "array_read speed2cssss \<bar>s\<bar> = Some (speed2cssss ! nat \<bar>s\<bar>)"
    using assms(3) by (simp add: speed_table_read)
  show ?thesis
  proof (cases "s > 0")
    case True
    with assms a speed_table_entry(1)[OF n, of "0x20"] show ?thesis
      unfolding housedcc_pidcc_move_def Let_def c r by simp
  next
    case False
    with assms a speed_table_entry(1)[OF n, of 0] show ?thesis
      unfolding housedcc_pidcc_move_def Let_def c r by simp
  qed
qed

lemma move_over_limit:
  assumes "29 \<le> \<bar>s\<bar>" "s \<noteq> INT_MIN"
  shows "housedcc_pidcc_move wr st a s = Some (0, st)"
  using assms by (simp add: housedcc_pidcc_move_def Let_def c_abs_eq)

text \<open>
  At \<open>INT_MIN\<close>, with a valid address and the gate open, the call reads the table
  outside its bounds: it does not return.
\<close>

lemma move_at_INT_MIN:
  "1 \<le> a \<Longrightarrow> a \<le> 127 \<Longrightarrow> PiDccState st \<noteq> CHR ''*'' \<Longrightarrow>
     housedcc_pidcc_move wr st a INT_MIN = None"
  by (simp add: housedcc_pidcc_move_def Let_def c_abs_def array_read_def INT_MIN_def)

text \<open>At every other step the call returns, with 0 or 1.\<close>

lemma move_returns:
  assumes "s \<noteq> INT_MIN"
  shows "\<exists>r st'. housedcc_pidcc_move wr st a s = Some (r, st')"
proof (cases "\<bar>s\<bar> \<le> 28")
  case True
  then have "array_read speed2cssss \<bar>s\<bar> = Some (speed2cssss ! nat \<bar>s\<bar>)"
    by (simp add: speed_table_read)
  with assms True show ?thesis
    by (cases "housedcc_pidcc_write wr st
                 (send_line (a AND 0x7f) (0x40 + (if s > 0 then 0x20 else 0)
                    + (speed2cssss ! nat \<bar>s\<bar> AND 0x1f)))")
       (simp add: housedcc_pidcc_move_def Let_def c_abs_eq)
next
  case False
  with assms show ?thesis by (simp add: housedcc_pidcc_move_def Let_def c_abs_eq)
qed

lemma write_dry_run:
  "\<not> housedcc_pidcc_enabled st \<Longrightarrow>
     housedcc_pidcc_write wr st text = (0, st\<lparr>capture := capture st @ [(''BUILT'', text)]\<rparr>)"
  by (simp add: housedcc_pidcc_write_def Let_def)

lemma write_transmitted_on_failure:
  "fst (housedcc_pidcc_write wr st text) = 0 \<Longrightarrow>
     transmitted (snd (housedcc_pidcc_write wr st text)) = transmitted st"
  by (simp add: housedcc_pidcc_write_def Let_def split: if_splits)

lemma accessory_encoding:
  "address < 512 \<Longrightarrow> PiDccState st \<noteq> CHR ''*'' \<Longrightarrow>
     housedcc_pidcc_accessory wr st address device val =
       housedcc_pidcc_write wr st
         (send_line (0x80 + (address AND 0x3f))
            (0x80 + drop_bit 2 (address AND 0x1c0) + (if val \<noteq> 0 then 0x08 else 0)
               + (device AND 0x0f)))"
  by (simp add: housedcc_pidcc_accessory_def Let_def)

text \<open>
  The device is cut to 4 bits and added to the activation bit \<open>0x08\<close>, which is
  one of the 4: device 8 switched off goes out as device 0 switched on.
\<close>

lemma accessory_device_overlap:
  "housedcc_pidcc_accessory wr st address 8 0 = housedcc_pidcc_accessory wr st address 0 1"
  by (simp add: housedcc_pidcc_accessory_def Let_def)

lemma accessory_rejects_512:
  "address \<ge> 512 \<Longrightarrow> housedcc_pidcc_accessory wr st address device val = (0, st)"
  by (simp add: housedcc_pidcc_accessory_def)

lemma launch_readiness:
  "PiDccState (housedcc_pidcc_launch os st) = PiDccState st"
  "PiDccStateDeadline (housedcc_pidcc_launch os st) = PiDccStateDeadline st"
  by (simp_all add: housedcc_pidcc_launch_def Let_def split: option.splits)

lemma deceased_readiness:
  "PiDccState (snd (housedcc_pidcc_deceased os st)) = PiDccState st"
  "PiDccStateDeadline (snd (housedcc_pidcc_deceased os st)) = PiDccStateDeadline st"
  by (simp_all add: housedcc_pidcc_deceased_def Let_def)

lemma periodic_readiness:
  "PiDccState (housedcc_pidcc_periodic os st now) =
       (if PiDccState st = CHR ''*'' \<and> PiDccStateDeadline st < now then CHR ''#''
        else PiDccState st)"
  "PiDccStateDeadline (housedcc_pidcc_periodic os st now) = PiDccStateDeadline st"
proof -
  define st1 where "st1 =
        (if PiDccState st = CHR ''*'' then
           (if PiDccStateDeadline st < now then
              st\<lparr>PiDccState := CHR ''#'', capture := capture st @ [(''TIMEOUT'', [])]\<rparr>
            else st)
         else st)"
  have s1: "PiDccState st1 = (if PiDccState st = CHR ''*'' \<and> PiDccStateDeadline st < now then CHR ''#''
        else PiDccState st)" and d1: "PiDccStateDeadline st1 = PiDccStateDeadline st"
    by (simp_all add: st1_def)
  have p: "housedcc_pidcc_periodic os st now =
      (if now mod 5 = 0 then
           (case housedcc_pidcc_deceased os st1 of
              (True, st2) \<Rightarrow>
                housedcc_pidcc_launch os
                  (st2\<lparr>capture := capture st2 @ [(''ERROR'', ''PiDCC died'')]\<rparr>)
            | (False, st2) \<Rightarrow> st2)
         else st1)"
    by (simp add: housedcc_pidcc_periodic_def st1_def Let_def)
  obtain b st2 where d: "housedcc_pidcc_deceased os st1 = (b, st2)" by (cases "housedcc_pidcc_deceased os st1")
  from deceased_readiness [of os st1] d have
    s2: "PiDccState st2 = PiDccState st1" and d2: "PiDccStateDeadline st2 = PiDccStateDeadline st1" by simp_all
  show "PiDccState (housedcc_pidcc_periodic os st now) =
       (if PiDccState st = CHR ''*'' \<and> PiDccStateDeadline st < now then CHR ''#''
        else PiDccState st)"
    unfolding p d using s1 s2 by (cases b) (simp_all add: launch_readiness)
  show "PiDccStateDeadline (housedcc_pidcc_periodic os st now) = PiDccStateDeadline st"
    unfolding p d using d1 d2 by (cases b) (simp_all add: launch_readiness)
qed


section \<open>Claims on the transport and encoder\<close>

text \<open>
  Claim C2. A stop is never gated on readiness: for every address 0 to 127 (0 is
  "stop all") and every state of the module, whatever the readiness reported by the
  worker, \<open>housedcc_pidcc_stop\<close> hands the line \<open>send address byte\<close> to
  \<open>housedcc_pidcc_write\<close>, with byte \<open>0x40 + 1\<close> for an emergency stop and
  \<open>0x40 + 0\<close> otherwise; the line is recorded, and it is transmitted when pins are
  configured and \<open>write\<close> succeeds.
\<close>

theorem stop_never_gated:
  "0 \<le> a \<and> a \<le> 127 \<longrightarrow>
     housedcc_pidcc_stop wr st a e =
       housedcc_pidcc_write wr st (send_line a (0x40 + (if e \<noteq> 0 then 1 else 0)))
   \<and> capture (snd (housedcc_pidcc_stop wr st a e)) =
       capture st @ [(if housedcc_pidcc_enabled st then ''WRITE'' else ''BUILT'',
                      send_line a (0x40 + (if e \<noteq> 0 then 1 else 0)))]
   \<and> (housedcc_pidcc_enabled st \<and> wr > 0 \<longrightarrow>
        fst (housedcc_pidcc_stop wr st a e) = 1
      \<and> transmitted (snd (housedcc_pidcc_stop wr st a e)) =
          transmitted st @
            [take (nat wr) (send_line a (0x40 + (if e \<noteq> 0 then 1 else 0)) @ [CHR 0x0A])])"
  by (simp add: housedcc_pidcc_stop_def housedcc_pidcc_write_def Let_def and_127_id)

text \<open>Emergency stop of all vehicles while the worker reports a full queue.\<close>

theorem stop_never_gated_witness:
  "(0::int) \<le> 0 \<and> (0::int) \<le> 127
   \<and> housedcc_pidcc_enabled (pidcc_live\<lparr>PiDccState := CHR ''*''\<rparr>) \<and> (10::int) > 0
   \<and> fst (housedcc_pidcc_stop 10 (pidcc_live\<lparr>PiDccState := CHR ''*''\<rparr>) 0 1) = 1
   \<and> transmitted (snd (housedcc_pidcc_stop 10 (pidcc_live\<lparr>PiDccState := CHR ''*''\<rparr>) 0 1)) =
        [''send 0 65'' @ [CHR 0x0A]]"
  using stop_never_gated [of 0 10 "pidcc_live\<lparr>PiDccState := CHR ''*''\<rparr>" 1]
  by (simp add: housedcc_pidcc_enabled_def housedcc_pidcc_write_def pidcc_live_def
        pidcc_initial_def send_line_def dec_def)

text \<open>
  Claim C3. Queue-full gating: when the readiness state is \<open>*\<close> (queue full),
  \<open>housedcc_pidcc_move\<close>, \<open>housedcc_pidcc_function\<close> and
  \<open>housedcc_pidcc_accessory\<close> return 0 on every input and leave the module state as
  it was: nothing is recorded and nothing is written to the worker.
\<close>

theorem queue_full_gating:
  "PiDccState st = CHR ''*'' \<Longrightarrow>
     housedcc_pidcc_move wr st a s = Some (0, st)
   \<and> housedcc_pidcc_function wr st a i = (0, st)
   \<and> housedcc_pidcc_accessory wr st a d v = (0, st)"
  by (simp add: housedcc_pidcc_move_def housedcc_pidcc_function_def
        housedcc_pidcc_accessory_def)

text \<open>The three commands on valid arguments with a full queue.\<close>

theorem queue_full_gating_witness:
  "PiDccState (pidcc_live\<lparr>PiDccState := CHR ''*''\<rparr>) = CHR ''*''
   \<and> housedcc_pidcc_move 10 (pidcc_live\<lparr>PiDccState := CHR ''*''\<rparr>) 3 5
       = Some (0, pidcc_live\<lparr>PiDccState := CHR ''*''\<rparr>)
   \<and> housedcc_pidcc_function 10 (pidcc_live\<lparr>PiDccState := CHR ''*''\<rparr>) 3 144
       = (0, pidcc_live\<lparr>PiDccState := CHR ''*''\<rparr>)
   \<and> housedcc_pidcc_accessory 10 (pidcc_live\<lparr>PiDccState := CHR ''*''\<rparr>) 100 2 1
       = (0, pidcc_live\<lparr>PiDccState := CHR ''*''\<rparr>)"
  using queue_full_gating [of "pidcc_live\<lparr>PiDccState := CHR ''*''\<rparr>" 10 3 5 144 2 1]
    queue_full_gating [of "pidcc_live\<lparr>PiDccState := CHR ''*''\<rparr>" 10 100 5 144 2 1]
  by simp


text \<open>
  Claim C10. Dry run returns failure: when no transmission pin is configured (both
  GPIO pins \<open>\<le> 0\<close>), \<open>housedcc_pidcc_stop\<close>, \<open>housedcc_pidcc_function\<close> and
  \<open>housedcc_pidcc_accessory\<close> return 0 on every input, and \<open>housedcc_pidcc_move\<close>
  returns 0 at every step where it returns at all, that is every step but
  \<open>INT_MIN\<close>: 0 is the value they return on failure. Nothing is transmitted. On
  valid arguments the command line is built and recorded under the action
  \<open>BUILT\<close> and nothing else changes: always for a stop, and for the other three
  whenever the queue-full gate of claim C3, which comes before the line is built, is
  open.
\<close>

theorem dry_run_returns_failure:
  "GpioPinA st \<le> 0 \<and> GpioPinB st \<le> 0 \<longrightarrow>
     (s \<noteq> INT_MIN \<longrightarrow>
        map_option fst (housedcc_pidcc_move wr st a s) = Some 0
      \<and> map_option (transmitted \<circ> snd) (housedcc_pidcc_move wr st a s) = Some (transmitted st))
   \<and> fst (housedcc_pidcc_stop wr st a e) = 0
   \<and> transmitted (snd (housedcc_pidcc_stop wr st a e)) = transmitted st
   \<and> fst (housedcc_pidcc_function wr st a i) = 0
   \<and> transmitted (snd (housedcc_pidcc_function wr st a i)) = transmitted st
   \<and> fst (housedcc_pidcc_accessory wr st acc d v) = 0
   \<and> transmitted (snd (housedcc_pidcc_accessory wr st acc d v)) = transmitted st
   \<and> (0 \<le> a \<and> a \<le> 127 \<longrightarrow>
        housedcc_pidcc_stop wr st a e =
          (0, st\<lparr>capture := capture st @
                    [(''BUILT'', send_line a (0x40 + (if e \<noteq> 0 then 1 else 0)))]\<rparr>))
   \<and> (PiDccState st \<noteq> CHR ''*'' \<longrightarrow>
        (1 \<le> a \<and> a \<le> 127 \<and> \<bar>s\<bar> \<le> 28 \<longrightarrow>
           housedcc_pidcc_move wr st a s =
             Some (0, st\<lparr>capture := capture st @
                     [(''BUILT'', send_line a (0x40 + (if s > 0 then 0x20 else 0)
                                     + (speed2cssss ! nat \<bar>s\<bar> AND 0x1f)))]\<rparr>))
      \<and> (0 \<le> a \<and> a \<le> 127 \<longrightarrow>
           housedcc_pidcc_function wr st a i =
             (0, st\<lparr>capture := capture st @ [(''BUILT'', send_line a i)]\<rparr>))
      \<and> (0 \<le> acc \<and> acc < 512 \<longrightarrow>
           housedcc_pidcc_accessory wr st acc d v =
             (0, st\<lparr>capture := capture st @
                   [(''BUILT'', send_line (0x80 + (acc AND 0x3f))
                       (0x80 + drop_bit 2 (acc AND 0x1c0) + (if v \<noteq> 0 then 0x08 else 0)
                          + (d AND 0x0f)))]\<rparr>)))"
proof (intro impI)
  assume pins: "GpioPinA st \<le> 0 \<and> GpioPinB st \<le> 0"
  then have off: "\<not> housedcc_pidcc_enabled st"
    by (auto simp: housedcc_pidcc_enabled_def)
  note dry = write_dry_run [OF off]
  have m: "s \<noteq> INT_MIN \<longrightarrow>
        map_option fst (housedcc_pidcc_move wr st a s) = Some 0
      \<and> map_option (transmitted \<circ> snd) (housedcc_pidcc_move wr st a s) = Some (transmitted st)"
  proof
    assume s: "s \<noteq> INT_MIN"
    show "map_option fst (housedcc_pidcc_move wr st a s) = Some 0
      \<and> map_option (transmitted \<circ> snd) (housedcc_pidcc_move wr st a s) = Some (transmitted st)"
    proof (cases "\<bar>s\<bar> \<le> 28")
      case True
      then have "array_read speed2cssss \<bar>s\<bar> = Some (speed2cssss ! nat \<bar>s\<bar>)"
        by (simp add: speed_table_read)
      with s show ?thesis by (simp add: housedcc_pidcc_move_def Let_def c_abs_eq dry)
    next
      case False
      with s show ?thesis by (simp add: housedcc_pidcc_move_def Let_def c_abs_eq)
    qed
  qed
  have p: "fst (housedcc_pidcc_stop wr st a e) = 0"
    "transmitted (snd (housedcc_pidcc_stop wr st a e)) = transmitted st"
    by (simp_all add: housedcc_pidcc_stop_def dry)
  have f: "fst (housedcc_pidcc_function wr st a i) = 0"
    "transmitted (snd (housedcc_pidcc_function wr st a i)) = transmitted st"
    by (simp_all add: housedcc_pidcc_function_def dry)
  have c: "fst (housedcc_pidcc_accessory wr st acc d v) = 0"
    "transmitted (snd (housedcc_pidcc_accessory wr st acc d v)) = transmitted st"
    by (simp_all add: housedcc_pidcc_accessory_def Let_def dry)
  have p2: "0 \<le> a \<and> a \<le> 127 \<longrightarrow>
        housedcc_pidcc_stop wr st a e =
          (0, st\<lparr>capture := capture st @
                    [(''BUILT'', send_line a (0x40 + (if e \<noteq> 0 then 1 else 0)))]\<rparr>)"
    by (simp add: housedcc_pidcc_stop_def dry and_127_id)
  have m2: "PiDccState st \<noteq> CHR ''*'' \<longrightarrow> 1 \<le> a \<and> a \<le> 127 \<and> \<bar>s\<bar> \<le> 28 \<longrightarrow>
           housedcc_pidcc_move wr st a s =
             Some (0, st\<lparr>capture := capture st @
                     [(''BUILT'', send_line a (0x40 + (if s > 0 then 0x20 else 0)
                                     + (speed2cssss ! nat \<bar>s\<bar> AND 0x1f)))]\<rparr>)"
    by (simp add: housedcc_pidcc_move_def Let_def dry and_127_id c_abs_small speed_table_read)
  have f2: "PiDccState st \<noteq> CHR ''*'' \<longrightarrow> 0 \<le> a \<and> a \<le> 127 \<longrightarrow>
           housedcc_pidcc_function wr st a i =
             (0, st\<lparr>capture := capture st @ [(''BUILT'', send_line a i)]\<rparr>)"
    by (simp add: housedcc_pidcc_function_def dry and_127_id)
  have c2: "PiDccState st \<noteq> CHR ''*'' \<longrightarrow> 0 \<le> acc \<and> acc < 512 \<longrightarrow>
           housedcc_pidcc_accessory wr st acc d v =
             (0, st\<lparr>capture := capture st @
                   [(''BUILT'', send_line (0x80 + (acc AND 0x3f))
                       (0x80 + drop_bit 2 (acc AND 0x1c0) + (if v \<noteq> 0 then 0x08 else 0)
                          + (d AND 0x0f)))]\<rparr>)"
    by (simp add: accessory_encoding dry)
  from m p f c p2 m2 f2 c2 show "(s \<noteq> INT_MIN \<longrightarrow>
        map_option fst (housedcc_pidcc_move wr st a s) = Some 0
      \<and> map_option (transmitted \<circ> snd) (housedcc_pidcc_move wr st a s) = Some (transmitted st))
   \<and> fst (housedcc_pidcc_stop wr st a e) = 0
   \<and> transmitted (snd (housedcc_pidcc_stop wr st a e)) = transmitted st
   \<and> fst (housedcc_pidcc_function wr st a i) = 0
   \<and> transmitted (snd (housedcc_pidcc_function wr st a i)) = transmitted st
   \<and> fst (housedcc_pidcc_accessory wr st acc d v) = 0
   \<and> transmitted (snd (housedcc_pidcc_accessory wr st acc d v)) = transmitted st
   \<and> (0 \<le> a \<and> a \<le> 127 \<longrightarrow>
        housedcc_pidcc_stop wr st a e =
          (0, st\<lparr>capture := capture st @
                    [(''BUILT'', send_line a (0x40 + (if e \<noteq> 0 then 1 else 0)))]\<rparr>))
   \<and> (PiDccState st \<noteq> CHR ''*'' \<longrightarrow>
        (1 \<le> a \<and> a \<le> 127 \<and> \<bar>s\<bar> \<le> 28 \<longrightarrow>
           housedcc_pidcc_move wr st a s =
             Some (0, st\<lparr>capture := capture st @
                     [(''BUILT'', send_line a (0x40 + (if s > 0 then 0x20 else 0)
                                     + (speed2cssss ! nat \<bar>s\<bar> AND 0x1f)))]\<rparr>))
      \<and> (0 \<le> a \<and> a \<le> 127 \<longrightarrow>
           housedcc_pidcc_function wr st a i =
             (0, st\<lparr>capture := capture st @ [(''BUILT'', send_line a i)]\<rparr>))
      \<and> (0 \<le> acc \<and> acc < 512 \<longrightarrow>
           housedcc_pidcc_accessory wr st acc d v =
             (0, st\<lparr>capture := capture st @
                   [(''BUILT'', send_line (0x80 + (acc AND 0x3f))
                       (0x80 + drop_bit 2 (acc AND 0x1c0) + (if v \<noteq> 0 then 0x08 else 0)
                          + (d AND 0x0f)))]\<rparr>)))"
    by blast
qed

text \<open>The four commands on a module that never had its pins configured.\<close>

theorem dry_run_returns_failure_witness:
  "GpioPinA pidcc_initial \<le> 0 \<and> GpioPinB pidcc_initial \<le> 0
   \<and> (- 20 :: int) \<noteq> INT_MIN
   \<and> PiDccState pidcc_initial \<noteq> CHR ''*''
   \<and> housedcc_pidcc_move 12 pidcc_initial 44 (- 20)
        = Some (0, pidcc_initial\<lparr>capture := [(''BUILT'', ''send 44 91'')]\<rparr>)
   \<and> housedcc_pidcc_stop 12 pidcc_initial 44 1
        = (0, pidcc_initial\<lparr>capture := [(''BUILT'', ''send 44 65'')]\<rparr>)
   \<and> housedcc_pidcc_function 12 pidcc_initial 44 144
        = (0, pidcc_initial\<lparr>capture := [(''BUILT'', ''send 44 144'')]\<rparr>)
   \<and> housedcc_pidcc_accessory 12 pidcc_initial 300 2 1
        = (0, pidcc_initial\<lparr>capture := [(''BUILT'', ''send 172 202'')]\<rparr>)"
proof -
  have h: "GpioPinA pidcc_initial \<le> 0 \<and> GpioPinB pidcc_initial \<le> 0"
    "(- 20 :: int) \<noteq> INT_MIN"
    "PiDccState pidcc_initial \<noteq> CHR ''*''"
    "capture pidcc_initial = []"
    "send_line 44 (0x40 + (if (- 20 :: int) > 0 then 0x20 else 0)
        + (speed2cssss ! nat \<bar>- 20\<bar> AND 0x1f)) = ''send 44 91''"
    "send_line 44 (0x40 + (if (1::int) \<noteq> 0 then 1 else 0)) = ''send 44 65''"
    "send_line 44 144 = ''send 44 144''"
    "send_line (0x80 + (300 AND 0x3f))
       (0x80 + drop_bit 2 (300 AND 0x1c0) + (if (1::int) \<noteq> 0 then 0x08 else 0)
          + (2 AND 0x0f)) = ''send 172 202''"
    by code_simp+
  from dry_run_returns_failure [of pidcc_initial "- 20" 12 44 1 144 300 2 1] h
  show ?thesis by simp
qed

text \<open>
  Claim C6, as amended. A busy (\<open>%\<close>) or queue-full (\<open>*\<close>) line sets the
  readiness state to its sigil and the deadline to \<open>now + 3\<close>. The periodic tick
  reverts the state to idle (\<open>#\<close>) only from queue-full, and only once the tick's
  time is strictly later than the deadline; in every other case, the busy state
  included, the tick leaves the readiness state as it is. The tick never changes the
  deadline.
\<close>

theorem readiness_deadline_recovery:
  "PiDccState (housedcc_pidcc_decode now st (CHR ''%'' # rest)) = CHR ''%''
   \<and> PiDccStateDeadline (housedcc_pidcc_decode now st (CHR ''%'' # rest)) = now + 3
   \<and> PiDccState (housedcc_pidcc_decode now st (CHR ''*'' # rest)) = CHR ''*''
   \<and> PiDccStateDeadline (housedcc_pidcc_decode now st (CHR ''*'' # rest)) = now + 3
   \<and> PiDccState (housedcc_pidcc_periodic os st tick) =
       (if PiDccState st = CHR ''*'' \<and> PiDccStateDeadline st < tick then CHR ''#''
        else PiDccState st)
   \<and> PiDccStateDeadline (housedcc_pidcc_periodic os st tick) = PiDccStateDeadline st"
  by (simp add: housedcc_pidcc_decode_def periodic_readiness)

text \<open>
  Claim C6 as stated fails: a busy state is still busy one second after its deadline,
  and a queue-full state is still queue-full at the tick whose time equals the
  deadline.
\<close>

theorem readiness_deadline_recovery_counterexample:
  "PiDccStateDeadline (housedcc_pidcc_decode 100 pidcc_live ''% busy'') = 103
   \<and> PiDccState (housedcc_pidcc_periodic os_quiet
        (housedcc_pidcc_decode 100 pidcc_live ''% busy'') 104) = CHR ''%''
   \<and> PiDccStateDeadline (housedcc_pidcc_decode 100 pidcc_live ''* full'') = 103
   \<and> PiDccState (housedcc_pidcc_periodic os_quiet
        (housedcc_pidcc_decode 100 pidcc_live ''* full'') 103) = CHR ''*''"
  by code_simp


text \<open>
  Claim C7 at accessory address 0, device 0, value on: the high address bits 000 go
  out as they are, \<open>0x80 + 0x00 + 0x08 = 136\<close>, where the inverted bits 111 would
  give \<open>0x80 + 0x70 + 0x08 = 248\<close>: the exclusive or is taken with the constant 0.
\<close>

theorem accessory_high_bits_not_inverted:
  "housedcc_pidcc_accessory 20 pidcc_live 0 0 1 =
     (1, pidcc_live\<lparr>capture := [(''WRITE'', ''send 128 136'')],
                    transmitted := [''send 128 136'' @ [CHR 0x0A]]\<rparr>)"
  by code_simp

section \<open>Facts about the scanning loops\<close>

lemma first_match_le: "first_match P xs \<le> length xs"
  by (simp add: first_match_def length_takeWhile_le)

lemma first_match_hit: "first_match P xs < length xs \<Longrightarrow> P (xs ! first_match P xs)"
  unfolding first_match_def using nth_length_takeWhile [of "\<lambda>x. \<not> P x" xs] by simp

lemma first_match_none: "first_match P xs = length xs \<longleftrightarrow> (\<forall>x\<in>set xs. \<not> P x)"
  by (induction xs) (auto simp: first_match_def)

lemma first_match_before: "i < first_match P xs \<Longrightarrow> \<not> P (xs ! i)"
  unfolding first_match_def using takeWhile_nth [of i "\<lambda>x. \<not> P x" xs]
    nth_mem [of i "takeWhile (\<lambda>x. \<not> P x) xs"] set_takeWhileD [of "xs ! i" "\<lambda>x. \<not> P x" xs]
  by auto

lemma first_match_map: "first_match P (map f xs) = first_match (\<lambda>x. P (f x)) xs"
  by (simp add: first_match_def takeWhile_map comp_def)

lemma first_match_fill:
  "\<forall>x\<in>set xs. \<not> P x \<Longrightarrow> c < length xs \<Longrightarrow> P y \<Longrightarrow> first_match P (xs[c := y]) = c"
proof (induction xs arbitrary: c)
  case Nil
  then show ?case by simp
next
  case (Cons x xs)
  then show ?case by (cases c) (auto simp: first_match_def)
qed

lemma first_match_append_new:
  "\<forall>x\<in>set xs. \<not> P x \<Longrightarrow> P y \<Longrightarrow> first_match P (xs @ [y]) = length xs"
  by (induction xs) (auto simp: first_match_def)

lemma scan_neg_iff: "scan P xs < 0 \<longleftrightarrow> (\<forall>x\<in>set xs. \<not> P x)"
  using first_match_le [of P xs] first_match_none [of P xs]
  by (auto simp: scan_def Let_def)

lemma scan_found:
  assumes "scan P xs \<ge> 0"
  shows "scan P xs = int (first_match P xs)" and "nat (scan P xs) < length xs"
    and "P (xs ! nat (scan P xs))"
proof -
  from assms have lt: "first_match P xs < length xs"
    by (auto simp: scan_def Let_def split: if_splits)
  then show "scan P xs = int (first_match P xs)" by (simp add: scan_def)
  then show "nat (scan P xs) < length xs" using lt by simp
  show "P (xs ! nat (scan P xs))"
    using first_match_hit [OF lt] lt by (simp add: scan_def)
qed

lemma scan_map: "scan P (map f xs) = scan (\<lambda>x. P (f x)) xs"
  by (simp add: scan_def first_match_map)

text \<open>A store into one slot that keeps the scanned field leaves the scan as it was.\<close>

lemma scan_update_same:
  assumes "c < length xs" "f y = f (xs ! c)"
  shows "scan (\<lambda>x. P (f x)) (xs[c := y]) = scan (\<lambda>x. P (f x)) xs"
proof -
  have "map f (xs[c := y]) = map f xs"
    using assms by (simp add: map_update list_update_same_conv)
  then show ?thesis by (metis scan_map)
qed

section \<open>Facts about the fleet\<close>

lemma vehicle_overwritten:
  "v\<lparr>veh_id := i, veh_address := a, veh_speed := s, veh_functions := f, veh_model := m\<rparr> =
     \<lparr>veh_id = i, veh_address = a, veh_speed = s, veh_functions = f, veh_model = m\<rparr>"
  by (cases v) simp

lemma add_existing:
  assumes valid: "housedcc_fleet_valid_address a"
    and found: "housedcc_fleet_find (Vehicles fl) ident = int c"
    and free: "housedcc_fleet_find_address (Vehicles fl) a < 0 \<or>
               housedcc_fleet_find_address (Vehicles fl) a = int c"
  shows "\<exists>tm. Vehicles (housedcc_fleet_add fl ident model a) =
           (Vehicles fl)[c := (Vehicles fl ! c)
              \<lparr>veh_address := a, veh_speed := 0, veh_functions := 0, veh_model := tm\<rparr>]"
  using assms by (auto simp: housedcc_fleet_add_def Let_def)

lemma add_new_appended:
  assumes valid: "housedcc_fleet_valid_address a"
    and new: "housedcc_fleet_find (Vehicles fl) ident < 0"
    and free: "housedcc_fleet_find_address (Vehicles fl) a < 0"
    and full: "first_match (\<lambda>v. veh_id v = []) (Vehicles fl) = length (Vehicles fl)"
  shows "\<exists>tm. Vehicles (housedcc_fleet_add fl ident model a) =
           Vehicles fl @ [\<lparr>veh_id = take 14 ident, veh_address = a, veh_speed = 0,
                            veh_functions = 0, veh_model = tm\<rparr>]"
  using assms by (auto simp: housedcc_fleet_add_def Let_def vehicle_overwritten)

lemma add_new_reused:
  assumes valid: "housedcc_fleet_valid_address a"
    and new: "housedcc_fleet_find (Vehicles fl) ident < 0"
    and free: "housedcc_fleet_find_address (Vehicles fl) a < 0"
    and slot: "first_match (\<lambda>v. veh_id v = []) (Vehicles fl) = t" "t < length (Vehicles fl)"
  shows "\<exists>tm. Vehicles (housedcc_fleet_add fl ident model a) =
           (Vehicles fl)[t := \<lparr>veh_id = take 14 ident, veh_address = a, veh_speed = 0,
                                veh_functions = 0, veh_model = tm\<rparr>]"
  using assms by (auto simp: housedcc_fleet_add_def Let_def vehicle_overwritten)

lemma add_rejected:
  assumes "housedcc_fleet_find_address (Vehicles fl) a \<ge> 0"
    and "housedcc_fleet_find (Vehicles fl) ident \<noteq> housedcc_fleet_find_address (Vehicles fl) a"
  shows "housedcc_fleet_add fl ident model a = fl"
  using assms by (auto simp: housedcc_fleet_add_def Let_def)

lemma add_entry:
  fixes fl :: fleet and ident :: string and model :: "string option" and a :: int
  assumes valid: "housedcc_fleet_valid_address a"
    and short: "length ident \<le> 14"
    and free: "housedcc_fleet_find_address (Vehicles fl) a < 0 \<or>
               housedcc_fleet_find_address (Vehicles fl) a = housedcc_fleet_find (Vehicles fl) ident"
  defines "vs' \<equiv> Vehicles (housedcc_fleet_add fl ident model a)"
  shows "\<exists>c < length vs'. housedcc_fleet_find vs' ident = int c
           \<and> (housedcc_fleet_find (Vehicles fl) ident \<ge> 0 \<longrightarrow>
                housedcc_fleet_find (Vehicles fl) ident = int c)
           \<and> veh_id (vs' ! c) = ident \<and> veh_address (vs' ! c) = a
           \<and> veh_speed (vs' ! c) = 0 \<and> veh_functions (vs' ! c) = 0"
proof (cases "housedcc_fleet_find (Vehicles fl) ident \<ge> 0")
  case True
  let ?P = "\<lambda>v. ident = veh_id v"
  from True have ge: "scan ?P (Vehicles fl) \<ge> 0" by (simp add: housedcc_fleet_find_def)
  define c where "c = nat (scan ?P (Vehicles fl))"
  from scan_found [OF ge] have c: "housedcc_fleet_find (Vehicles fl) ident = int c"
    "c < length (Vehicles fl)" "veh_id (Vehicles fl ! c) = ident"
    by (simp_all add: c_def housedcc_fleet_find_def)
  from free c(1) have "housedcc_fleet_find_address (Vehicles fl) a < 0 \<or>
               housedcc_fleet_find_address (Vehicles fl) a = int c" by simp
  from add_existing [OF valid c(1) this, of model] obtain tm where
    eq: "vs' = (Vehicles fl)[c := (Vehicles fl ! c)
              \<lparr>veh_address := a, veh_speed := 0, veh_functions := 0, veh_model := tm\<rparr>]"
    by (auto simp: vs'_def)
  have "scan (\<lambda>v. ident = veh_id v) vs' = scan (\<lambda>v. ident = veh_id v) (Vehicles fl)"
    unfolding eq by (rule scan_update_same [where f = veh_id and P = "\<lambda>i. ident = i"])
      (simp_all add: c(2))
  then have "housedcc_fleet_find vs' ident = int c"
    using c(1) by (simp add: housedcc_fleet_find_def)
  with c eq True show ?thesis by (intro exI [of _ c]) simp
next
  case False
  then have new: "housedcc_fleet_find (Vehicles fl) ident < 0" by simp
  then have none: "\<forall>v\<in>set (Vehicles fl). \<not> ident = veh_id v"
    by (simp add: housedcc_fleet_find_def scan_neg_iff)
  from free new have fr: "housedcc_fleet_find_address (Vehicles fl) a < 0" by auto
  define t where "t = first_match (\<lambda>v. veh_id v = []) (Vehicles fl)"
  have id: "take 14 ident = ident" using short by simp
  show ?thesis
  proof (cases "t < length (Vehicles fl)")
    case True
    from add_new_reused [OF valid new fr t_def [symmetric] True, of model] obtain tm where
      eq: "vs' = (Vehicles fl)[t := \<lparr>veh_id = ident, veh_address = a, veh_speed = 0,
                                veh_functions = 0, veh_model = tm\<rparr>]"
      by (auto simp: vs'_def id)
    have "first_match (\<lambda>v. ident = veh_id v) vs' = t"
      unfolding eq by (rule first_match_fill [OF none True]) simp
    then have "housedcc_fleet_find vs' ident = int t"
      using True by (simp add: housedcc_fleet_find_def scan_def eq)
    with True eq new show ?thesis by (intro exI [of _ t]) simp
  next
    case False
    then have full: "first_match (\<lambda>v. veh_id v = []) (Vehicles fl) = length (Vehicles fl)"
      using first_match_le [of "\<lambda>v. veh_id v = []" "Vehicles fl"] by (simp add: t_def)
    from add_new_appended [OF valid new fr full, of model] obtain tm where
      eq: "vs' = Vehicles fl @ [\<lparr>veh_id = ident, veh_address = a, veh_speed = 0,
                            veh_functions = 0, veh_model = tm\<rparr>]"
      by (auto simp: vs'_def id)
    have "first_match (\<lambda>v. ident = veh_id v) vs' = length (Vehicles fl)"
      unfolding eq by (rule first_match_append_new [OF none]) simp
    then have "housedcc_fleet_find vs' ident = int (length (Vehicles fl))"
      by (simp add: housedcc_fleet_find_def scan_def eq)
    with eq new show ?thesis by (intro exI [of _ "length (Vehicles fl)"]) simp
  qed
qed

lemma find_in_range:
  "housedcc_fleet_find vs ident = int c \<Longrightarrow> c < length vs \<and> veh_id (vs ! c) = ident"
  using scan_found(2,3) [of "\<lambda>v. ident = veh_id v" vs]
  by (simp add: housedcc_fleet_find_def)

lemma move_fails:
  assumes "s \<noteq> INT_MIN"
    and "PiDccState pd = CHR ''*'' \<or> \<not> housedcc_pidcc_enabled pd \<or> wr \<le> 0"
  shows "\<exists>pd'. housedcc_pidcc_move wr pd a s = Some (0, pd') \<and> transmitted pd' = transmitted pd"
proof (cases "\<bar>s\<bar> \<le> 28")
  case True
  then have "array_read speed2cssss \<bar>s\<bar> = Some (speed2cssss ! nat \<bar>s\<bar>)"
    by (simp add: speed_table_read)
  with assms show ?thesis
    by (auto simp: housedcc_pidcc_move_def housedcc_pidcc_write_def Let_def c_abs_eq)
next
  case False
  with assms show ?thesis by (simp add: housedcc_pidcc_move_def Let_def c_abs_eq)
qed

lemma function_fails:
  "PiDccState pd = CHR ''*'' \<or> \<not> housedcc_pidcc_enabled pd \<or> wr \<le> 0 \<Longrightarrow>
     fst (housedcc_pidcc_function wr pd a i) = 0"
  by (auto simp: housedcc_pidcc_function_def housedcc_pidcc_write_def Let_def)

lemma function_silent_on_failure:
  "fst (housedcc_pidcc_function wr pd a i) = 0 \<Longrightarrow>
     transmitted (snd (housedcc_pidcc_function wr pd a i)) = transmitted pd"
  by (auto simp: housedcc_pidcc_function_def write_transmitted_on_failure split: if_splits)

lemma fleet_move_found:
  fixes s :: int
  assumes "housedcc_fleet_find (Vehicles fl) ident = int c"
  defines "s' \<equiv> (if s < - 31 then - 31 else if s > 31 then 31 else s)"
  shows "housedcc_fleet_move wr fl pd ident s =
           map_option
             (\<lambda>(r, pd1).
                (r, fl\<lparr>Vehicles := (Vehicles fl)[c := (Vehicles fl ! c)\<lparr>veh_speed := s'\<rparr>]\<rparr>, pd1))
             (housedcc_pidcc_move wr pd (veh_address (Vehicles fl ! c)) s')"
  using assms(1) find_in_range [OF assms(1)]
  by (simp add: housedcc_fleet_move_def Let_def s'_def map_option_case split: option.splits)

text \<open>The clamp keeps the step away from \<open>INT_MIN\<close>: the move of a vehicle returns.\<close>

lemma fleet_move_returns:
  fixes s :: int
  assumes "housedcc_fleet_find (Vehicles fl) ident = int c"
  defines "s' \<equiv> (if s < - 31 then - 31 else if s > 31 then 31 else s)"
  shows "\<exists>r pd'. housedcc_pidcc_move wr pd (veh_address (Vehicles fl ! c)) s' = Some (r, pd')
           \<and> housedcc_fleet_move wr fl pd ident s =
               Some (r, fl\<lparr>Vehicles := (Vehicles fl)[c := (Vehicles fl ! c)\<lparr>veh_speed := s'\<rparr>]\<rparr>, pd')"
proof -
  have "s' \<noteq> INT_MIN" by (simp add: s'_def INT_MIN_def)
  from move_returns [OF this] obtain r pd' where
    m: "housedcc_pidcc_move wr pd (veh_address (Vehicles fl ! c)) s' = Some (r, pd')" by blast
  have "housedcc_fleet_move wr fl pd ident s =
      Some (r, fl\<lparr>Vehicles := (Vehicles fl)[c := (Vehicles fl ! c)\<lparr>veh_speed := s'\<rparr>]\<rparr>, pd')"
    using fleet_move_found [OF assms(1), of wr pd s] m by (simp add: s'_def)
  with m show ?thesis by blast
qed

lemma fleet_stop_found:
  assumes "housedcc_fleet_find (Vehicles fl) ident = int c"
  shows "housedcc_fleet_stop wr fl pd ident e =
           (fst (housedcc_pidcc_stop wr pd (veh_address (Vehicles fl ! c)) e),
            fl\<lparr>Vehicles := (Vehicles fl)[c := (Vehicles fl ! c)\<lparr>veh_speed := 0\<rparr>]\<rparr>,
            snd (housedcc_pidcc_stop wr pd (veh_address (Vehicles fl ! c)) e))"
  using assms find_in_range [OF assms]
  by (simp add: housedcc_fleet_stop_def Let_def case_prod_beta)

text \<open>
  \<open>housedcc_fleet_set\<close> once the vehicle, its model and the named function are found:
  the mask is stored first, then the index picks the instruction or the failure.
\<close>

lemma fleet_set_found:
  fixes fl :: fleet and c m i :: nat and ub :: "int \<Rightarrow> 16 word" and state :: int
  assumes "housedcc_fleet_find (Vehicles fl) ident = int c"
    and "veh_model (Vehicles fl ! c) = Some m"
    and "first_match (\<lambda>f. name = fn_name f) (model_functions (Models fl ! m)) = i"
    and "i < length (model_functions (Models fl ! m))"
  defines "index \<equiv> fn_index (model_functions (Models fl ! m) ! i)"
  defines "functions \<equiv>
     (if state \<noteq> 0 then veh_functions (Vehicles fl ! c) OR function_mask ub index
      else veh_functions (Vehicles fl ! c) AND NOT (function_mask ub index))"
  defines "fl1 \<equiv> fl\<lparr>Vehicles := (Vehicles fl)[c := (Vehicles fl ! c)\<lparr>veh_functions := functions\<rparr>]\<rparr>"
  shows "housedcc_fleet_set ub wr fl pd ident name state =
           (case function_instruction index functions of
              None \<Rightarrow> (0, fl1, pd)
            | Some instruction \<Rightarrow>
                (fst (housedcc_pidcc_function wr pd (veh_address (Vehicles fl ! c)) instruction),
                 fl1,
                 snd (housedcc_pidcc_function wr pd (veh_address (Vehicles fl ! c)) instruction)))"
  using assms(1-4)
  by (simp add: housedcc_fleet_set_def Let_def case_prod_beta index_def functions_def fl1_def
        split: option.splits)

section \<open>Claims on the fleet\<close>

lemma function_instruction_valid:
  "1 \<le> i \<and> i \<le> 4 \<or> i = 13 \<Longrightarrow>
     function_instruction i f =
       Some (0x80 + uint (f AND 0xf) + (if f AND 0x1000 \<noteq> 0 then 0x10 else 0))"
  "5 \<le> i \<and> i \<le> 8 \<Longrightarrow> function_instruction i f = Some (0xb0 + uint (drop_bit 4 f AND 0xf))"
  "9 \<le> i \<and> i \<le> 12 \<Longrightarrow> function_instruction i f = Some (0xa0 + uint (drop_bit 8 f AND 0xf))"
  by (auto simp: function_instruction_def)

lemma function_instruction_over_13: "14 \<le> i \<Longrightarrow> function_instruction i f = None"
  by (simp add: function_instruction_def)

text \<open>An index of 0 or below takes the branch of F1 to F4 and FL: it is not refused.\<close>

lemma function_instruction_unassigned:
  "i \<le> 0 \<Longrightarrow>
     function_instruction i f =
       Some (0x80 + uint (f AND 0xf) + (if f AND 0x1000 \<noteq> 0 then 0x10 else 0))"
  by (simp add: function_instruction_def)

lemma demo_horn_accepted:
  "fst (housedcc_fleet_set ub 32 fleet_demo pidcc_live ''UP844'' ''Horn'' 1) = 1"
proof -
  have 1: "housedcc_fleet_find (Vehicles fleet_demo) ''UP844'' = int 0" by code_simp
  have 2: "veh_model (Vehicles fleet_demo ! 0) = Some 0" by code_simp
  have 3: "first_match (\<lambda>f. ''Horn'' = fn_name f) (model_functions (Models fleet_demo ! 0)) = 2"
    by code_simp
  have 4: "2 < length (model_functions (Models fleet_demo ! 0))" by code_simp
  have 5: "fn_index (model_functions (Models fleet_demo ! 0) ! 2) = 0" by code_simp
  have 6: "veh_address (Vehicles fleet_demo ! 0) = 44" by code_simp
  have 7: "fst (housedcc_pidcc_function 32 pidcc_live 44 i) = 1" for i
    by (simp add: housedcc_pidcc_function_def housedcc_pidcc_write_def Let_def
        housedcc_pidcc_enabled_def pidcc_live_def pidcc_initial_def)
  show ?thesis
    unfolding fleet_set_found [OF 1 2 3 4] 5 6
    by (simp add: function_instruction_unassigned 7)
qed

text \<open>
  Claim C5 at a function of index 0. The model E8 declares its horn as \<open>Horn:0\<close>.
  Switching the horn of UP844 on does not fail: the call returns 1 and the instruction
  byte 128 of the group of F1 to F4 and FL goes out to address 44.
\<close>

theorem set_unassigned_index_accepted:
  "fn_index (model_functions (Models fleet_demo ! 0) ! 2) = 0
   \<and> fst (housedcc_fleet_set (\<lambda>_. 0) 32 fleet_demo pidcc_live ''UP844'' ''Horn'' 1) = 1
   \<and> transmitted (snd (snd (housedcc_fleet_set (\<lambda>_. 0) 32 fleet_demo pidcc_live
                               ''UP844'' ''Horn'' 1))) = [''send 44 128'' @ [CHR 0x0A]]"
  by code_simp

text \<open>
  Claim C4 on a deleted vehicle. Once UP844, the only vehicle, is deleted, no live
  vehicle holds address 44; adding SP4449 at address 44 is nevertheless rejected as a
  no-op, since the address scan also reads the slot of the deleted vehicle.
\<close>

theorem add_blocked_by_deleted_vehicle:
  "map veh_id (Vehicles (housedcc_fleet_delete fleet_demo ''UP844'')) = [[]]
   \<and> housedcc_fleet_add (housedcc_fleet_delete fleet_demo ''UP844'') ''SP4449'' None 44
       = housedcc_fleet_delete fleet_demo ''UP844''
   \<and> \<not> housedcc_fleet_exists
         (housedcc_fleet_add (housedcc_fleet_delete fleet_demo ''UP844'') ''SP4449'' None 44)
         ''SP4449''"
  by code_simp

text \<open>
  Claim C8, as amended. For every call of \<open>housedcc_fleet_add\<close> with a valid address
  that no other slot holds and an identifier of at most 14 characters, the vehicle is
  found under its identifier afterwards (in its old slot if it existed), with the
  given address, speed 0 and an empty function mask: an update of an existing vehicle
  resets its speed and function state just as a creation does.
\<close>

theorem add_resets_speed_and_functions:
  "housedcc_fleet_valid_address a \<and> length ident \<le> 14
   \<and> (housedcc_fleet_find_address (Vehicles fl) a < 0
      \<or> housedcc_fleet_find_address (Vehicles fl) a = housedcc_fleet_find (Vehicles fl) ident)
   \<longrightarrow>
     (\<exists>c < length (Vehicles (housedcc_fleet_add fl ident model a)).
        housedcc_fleet_find (Vehicles (housedcc_fleet_add fl ident model a)) ident = int c
      \<and> (housedcc_fleet_find (Vehicles fl) ident \<ge> 0 \<longrightarrow>
           housedcc_fleet_find (Vehicles fl) ident = int c)
      \<and> veh_id (Vehicles (housedcc_fleet_add fl ident model a) ! c) = ident
      \<and> veh_address (Vehicles (housedcc_fleet_add fl ident model a) ! c) = a
      \<and> veh_speed (Vehicles (housedcc_fleet_add fl ident model a) ! c) = 0
      \<and> veh_functions (Vehicles (housedcc_fleet_add fl ident model a) ! c) = 0)"
  using add_entry [of a ident fl model] by blast

text \<open>Moving the running engine UP844 to address 45.\<close>

theorem add_resets_speed_and_functions_witness:
  "housedcc_fleet_valid_address 45 \<and> length ''UP844'' \<le> 14
   \<and> housedcc_fleet_find_address (Vehicles fleet_running) 45 < 0
   \<and> housedcc_fleet_find (Vehicles fleet_running) ''UP844'' = 0
   \<and> veh_speed (Vehicles fleet_running ! 0) = 10
   \<and> veh_functions (Vehicles fleet_running ! 0) = 0x1000
   \<and> veh_address (Vehicles (housedcc_fleet_add fleet_running ''UP844'' (Some ''E8'') 45) ! 0) = 45
   \<and> veh_speed (Vehicles (housedcc_fleet_add fleet_running ''UP844'' (Some ''E8'') 45) ! 0) = 0
   \<and> veh_functions (Vehicles (housedcc_fleet_add fleet_running ''UP844'' (Some ''E8'') 45) ! 0) = 0"
proof -
  have h: "housedcc_fleet_valid_address 45" "length ''UP844'' \<le> 14"
    "housedcc_fleet_find_address (Vehicles fleet_running) 45 < 0"
    "housedcc_fleet_find (Vehicles fleet_running) ''UP844'' = 0"
    "veh_speed (Vehicles fleet_running ! 0) = 10"
    "veh_functions (Vehicles fleet_running ! 0) = 0x1000"
    by code_simp+
  from add_resets_speed_and_functions [of 45 "''UP844''" fleet_running "Some ''E8''"] h
  show ?thesis by auto
qed

text \<open>
  Claim C8 as stated fails: UP844 runs at step 10 with its headlight on, and adding
  UP844 again with the same model and address leaves it at speed 0 with no function on.
\<close>

theorem add_resets_speed_and_functions_counterexample:
  "Vehicles fleet_running =
     [\<lparr>veh_id = ''UP844'', veh_address = 44, veh_speed = 10, veh_functions = 0x1000,
       veh_model = Some 0\<rparr>]
   \<and> Vehicles (housedcc_fleet_add fleet_running ''UP844'' (Some ''E8'') 44) =
     [\<lparr>veh_id = ''UP844'', veh_address = 44, veh_speed = 0, veh_functions = 0,
       veh_model = Some 0\<rparr>]"
  by code_simp

text \<open>
  Claim C9, as amended. A move or function-set command on an existing vehicle
  returns, and the vehicle's stored speed (the step clamped to \<open>\<plusminus>31\<close>) or
  function mask is updated before the transport is called. If the transport fails (queue full, no pin
  configured, or \<open>write\<close> failing) the command returns 0 and nothing is transmitted,
  but the stored value stays updated. A stop on a vehicle with an address from 0 to
  127 stores speed 0 and always attempts the write, whatever the readiness.
\<close>

theorem transport_failure_not_rolled_back:
  "housedcc_fleet_find (Vehicles fl) ident = int c \<longrightarrow>
     housedcc_fleet_move wr fl pd ident s \<noteq> None
   \<and> veh_speed (Vehicles (fst (snd (the (housedcc_fleet_move wr fl pd ident s)))) ! c) =
       (if s < - 31 then - 31 else if s > 31 then 31 else s)
   \<and> (PiDccState pd = CHR ''*'' \<or> \<not> housedcc_pidcc_enabled pd \<or> wr \<le> 0 \<longrightarrow>
        fst (the (housedcc_fleet_move wr fl pd ident s)) = 0
      \<and> transmitted (snd (snd (the (housedcc_fleet_move wr fl pd ident s)))) = transmitted pd)
   \<and> (veh_model (Vehicles fl ! c) = Some m
      \<and> first_match (\<lambda>f. name = fn_name f) (model_functions (Models fl ! m)) = i
      \<and> i < length (model_functions (Models fl ! m)) \<longrightarrow>
        veh_functions (Vehicles (fst (snd (housedcc_fleet_set ub wr fl pd ident name state))) ! c) =
          (if state \<noteq> 0
           then veh_functions (Vehicles fl ! c)
                  OR function_mask ub (fn_index (model_functions (Models fl ! m) ! i))
           else veh_functions (Vehicles fl ! c)
                  AND NOT (function_mask ub (fn_index (model_functions (Models fl ! m) ! i))))
      \<and> (PiDccState pd = CHR ''*'' \<or> \<not> housedcc_pidcc_enabled pd \<or> wr \<le> 0 \<longrightarrow>
           fst (housedcc_fleet_set ub wr fl pd ident name state) = 0
         \<and> transmitted (snd (snd (housedcc_fleet_set ub wr fl pd ident name state))) =
             transmitted pd))
   \<and> (0 \<le> veh_address (Vehicles fl ! c) \<and> veh_address (Vehicles fl ! c) \<le> 127 \<longrightarrow>
        veh_speed (Vehicles (fst (snd (housedcc_fleet_stop wr fl pd ident e))) ! c) = 0
      \<and> (fst (housedcc_fleet_stop wr fl pd ident e),
          snd (snd (housedcc_fleet_stop wr fl pd ident e))) =
          housedcc_pidcc_write wr pd
            (send_line (veh_address (Vehicles fl ! c)) (0x40 + (if e \<noteq> 0 then 1 else 0))))"
proof (intro impI)
  assume found: "housedcc_fleet_find (Vehicles fl) ident = int c"
  from find_in_range [OF found] have c: "c < length (Vehicles fl)" by simp
  let ?s = "if s < - 31 then - 31 else if s > 31 then 31 else s"
  from fleet_move_returns [OF found, of wr pd s] obtain r pd' where
    pm: "housedcc_pidcc_move wr pd (veh_address (Vehicles fl ! c)) ?s = Some (r, pd')"
    and fm: "housedcc_fleet_move wr fl pd ident s =
      Some (r, fl\<lparr>Vehicles := (Vehicles fl)[c := (Vehicles fl ! c)\<lparr>veh_speed := ?s\<rparr>]\<rparr>, pd')"
    by blast
  have tot: "housedcc_fleet_move wr fl pd ident s \<noteq> None" by (simp add: fm)
  have mv: "veh_speed (Vehicles (fst (snd (the (housedcc_fleet_move wr fl pd ident s)))) ! c) = ?s"
    unfolding fm using c by simp
  have mv_fail: "PiDccState pd = CHR ''*'' \<or> \<not> housedcc_pidcc_enabled pd \<or> wr \<le> 0 \<longrightarrow>
        fst (the (housedcc_fleet_move wr fl pd ident s)) = 0
      \<and> transmitted (snd (snd (the (housedcc_fleet_move wr fl pd ident s)))) = transmitted pd"
  proof
    assume "PiDccState pd = CHR ''*'' \<or> \<not> housedcc_pidcc_enabled pd \<or> wr \<le> 0"
    moreover have "?s \<noteq> INT_MIN" by (simp add: INT_MIN_def)
    ultimately obtain pd2 where
      "housedcc_pidcc_move wr pd (veh_address (Vehicles fl ! c)) ?s = Some (0, pd2)"
      "transmitted pd2 = transmitted pd"
      using move_fails [of ?s pd wr "veh_address (Vehicles fl ! c)"] by blast
    with pm show
      "fst (the (housedcc_fleet_move wr fl pd ident s)) = 0
      \<and> transmitted (snd (snd (the (housedcc_fleet_move wr fl pd ident s)))) = transmitted pd"
      unfolding fm by simp
  qed
  have st: "0 \<le> veh_address (Vehicles fl ! c) \<and> veh_address (Vehicles fl ! c) \<le> 127 \<longrightarrow>
        veh_speed (Vehicles (fst (snd (housedcc_fleet_stop wr fl pd ident e))) ! c) = 0
      \<and> (fst (housedcc_fleet_stop wr fl pd ident e),
          snd (snd (housedcc_fleet_stop wr fl pd ident e))) =
          housedcc_pidcc_write wr pd
            (send_line (veh_address (Vehicles fl ! c)) (0x40 + (if e \<noteq> 0 then 1 else 0)))"
    unfolding fleet_stop_found [OF found] using c
    by (simp add: housedcc_pidcc_stop_def and_127_id)
  have fs: "veh_model (Vehicles fl ! c) = Some m
      \<and> first_match (\<lambda>f. name = fn_name f) (model_functions (Models fl ! m)) = i
      \<and> i < length (model_functions (Models fl ! m)) \<longrightarrow>
        veh_functions (Vehicles (fst (snd (housedcc_fleet_set ub wr fl pd ident name state))) ! c) =
          (if state \<noteq> 0
           then veh_functions (Vehicles fl ! c)
                  OR function_mask ub (fn_index (model_functions (Models fl ! m) ! i))
           else veh_functions (Vehicles fl ! c)
                  AND NOT (function_mask ub (fn_index (model_functions (Models fl ! m) ! i))))
      \<and> (PiDccState pd = CHR ''*'' \<or> \<not> housedcc_pidcc_enabled pd \<or> wr \<le> 0 \<longrightarrow>
           fst (housedcc_fleet_set ub wr fl pd ident name state) = 0
         \<and> transmitted (snd (snd (housedcc_fleet_set ub wr fl pd ident name state))) =
             transmitted pd)"
  proof (intro impI, elim conjE)
    assume m: "veh_model (Vehicles fl ! c) = Some m"
      and i: "first_match (\<lambda>f. name = fn_name f) (model_functions (Models fl ! m)) = i"
        "i < length (model_functions (Models fl ! m))"
    note set = fleet_set_found [OF found m i, of ub wr pd state]
    have stored: "veh_functions
        (Vehicles (fst (snd (housedcc_fleet_set ub wr fl pd ident name state))) ! c) =
          (if state \<noteq> 0
           then veh_functions (Vehicles fl ! c)
                  OR function_mask ub (fn_index (model_functions (Models fl ! m) ! i))
           else veh_functions (Vehicles fl ! c)
                  AND NOT (function_mask ub (fn_index (model_functions (Models fl ! m) ! i))))"
      unfolding set using c by (simp split: option.splits)
    have failing: "PiDccState pd = CHR ''*'' \<or> \<not> housedcc_pidcc_enabled pd \<or> wr \<le> 0 \<longrightarrow>
           fst (housedcc_fleet_set ub wr fl pd ident name state) = 0
         \<and> transmitted (snd (snd (housedcc_fleet_set ub wr fl pd ident name state))) =
             transmitted pd"
    proof
      assume "PiDccState pd = CHR ''*'' \<or> \<not> housedcc_pidcc_enabled pd \<or> wr \<le> 0"
      from function_fails [OF this] have
        z: "fst (housedcc_pidcc_function wr pd a j) = 0" for a j .
      from z function_silent_on_failure [OF z] show
        "fst (housedcc_fleet_set ub wr fl pd ident name state) = 0
         \<and> transmitted (snd (snd (housedcc_fleet_set ub wr fl pd ident name state))) =
             transmitted pd"
        unfolding set by (simp split: option.splits)
    qed
    from stored failing show "veh_functions
        (Vehicles (fst (snd (housedcc_fleet_set ub wr fl pd ident name state))) ! c) =
          (if state \<noteq> 0
           then veh_functions (Vehicles fl ! c)
                  OR function_mask ub (fn_index (model_functions (Models fl ! m) ! i))
           else veh_functions (Vehicles fl ! c)
                  AND NOT (function_mask ub (fn_index (model_functions (Models fl ! m) ! i))))
      \<and> (PiDccState pd = CHR ''*'' \<or> \<not> housedcc_pidcc_enabled pd \<or> wr \<le> 0 \<longrightarrow>
           fst (housedcc_fleet_set ub wr fl pd ident name state) = 0
         \<and> transmitted (snd (snd (housedcc_fleet_set ub wr fl pd ident name state))) =
             transmitted pd)" by (rule conjI)
  qed
  from tot mv mv_fail fs st show "housedcc_fleet_move wr fl pd ident s \<noteq> None
   \<and> veh_speed (Vehicles (fst (snd (the (housedcc_fleet_move wr fl pd ident s)))) ! c) =
       (if s < - 31 then - 31 else if s > 31 then 31 else s)
   \<and> (PiDccState pd = CHR ''*'' \<or> \<not> housedcc_pidcc_enabled pd \<or> wr \<le> 0 \<longrightarrow>
        fst (the (housedcc_fleet_move wr fl pd ident s)) = 0
      \<and> transmitted (snd (snd (the (housedcc_fleet_move wr fl pd ident s)))) = transmitted pd)
   \<and> (veh_model (Vehicles fl ! c) = Some m
      \<and> first_match (\<lambda>f. name = fn_name f) (model_functions (Models fl ! m)) = i
      \<and> i < length (model_functions (Models fl ! m)) \<longrightarrow>
        veh_functions (Vehicles (fst (snd (housedcc_fleet_set ub wr fl pd ident name state))) ! c) =
          (if state \<noteq> 0
           then veh_functions (Vehicles fl ! c)
                  OR function_mask ub (fn_index (model_functions (Models fl ! m) ! i))
           else veh_functions (Vehicles fl ! c)
                  AND NOT (function_mask ub (fn_index (model_functions (Models fl ! m) ! i))))
      \<and> (PiDccState pd = CHR ''*'' \<or> \<not> housedcc_pidcc_enabled pd \<or> wr \<le> 0 \<longrightarrow>
           fst (housedcc_fleet_set ub wr fl pd ident name state) = 0
         \<and> transmitted (snd (snd (housedcc_fleet_set ub wr fl pd ident name state))) =
             transmitted pd))
   \<and> (0 \<le> veh_address (Vehicles fl ! c) \<and> veh_address (Vehicles fl ! c) \<le> 127 \<longrightarrow>
        veh_speed (Vehicles (fst (snd (housedcc_fleet_stop wr fl pd ident e))) ! c) = 0
      \<and> (fst (housedcc_fleet_stop wr fl pd ident e),
          snd (snd (housedcc_fleet_stop wr fl pd ident e))) =
          housedcc_pidcc_write wr pd
            (send_line (veh_address (Vehicles fl ! c)) (0x40 + (if e \<noteq> 0 then 1 else 0))))"
    by (intro conjI)
qed

text \<open>UP844 commanded while the worker reports a full queue.\<close>

theorem transport_failure_not_rolled_back_witness:
  "housedcc_fleet_find (Vehicles fleet_demo) ''UP844'' = int 0
   \<and> PiDccState (pidcc_live\<lparr>PiDccState := CHR ''*''\<rparr>) = CHR ''*''
   \<and> veh_model (Vehicles fleet_demo ! 0) = Some 0
   \<and> first_match (\<lambda>f. ''Bell'' = fn_name f) (model_functions (Models fleet_demo ! 0)) = 1
   \<and> 1 < length (model_functions (Models fleet_demo ! 0))
   \<and> 0 \<le> veh_address (Vehicles fleet_demo ! 0) \<and> veh_address (Vehicles fleet_demo ! 0) \<le> 127
   \<and> veh_speed (Vehicles (fst (snd (the (housedcc_fleet_move 32 fleet_demo
        (pidcc_live\<lparr>PiDccState := CHR ''*''\<rparr>) ''UP844'' 10)))) ! 0) = 10
   \<and> fst (the (housedcc_fleet_move 32 fleet_demo (pidcc_live\<lparr>PiDccState := CHR ''*''\<rparr>) ''UP844'' 10)) = 0
   \<and> fst (housedcc_fleet_set (\<lambda>_. 0) 32 fleet_demo (pidcc_live\<lparr>PiDccState := CHR ''*''\<rparr>)
        ''UP844'' ''Bell'' 1) = 0
   \<and> veh_speed (Vehicles (fst (snd (housedcc_fleet_stop 32 fleet_demo
        (pidcc_live\<lparr>PiDccState := CHR ''*''\<rparr>) ''UP844'' 1))) ! 0) = 0"
proof -
  have h: "housedcc_fleet_find (Vehicles fleet_demo) ''UP844'' = int 0"
    "PiDccState (pidcc_live\<lparr>PiDccState := CHR ''*''\<rparr>) = CHR ''*''"
    "veh_model (Vehicles fleet_demo ! 0) = Some 0"
    "first_match (\<lambda>f. ''Bell'' = fn_name f) (model_functions (Models fleet_demo ! 0)) = 1"
    "1 < length (model_functions (Models fleet_demo ! 0))"
    "0 \<le> veh_address (Vehicles fleet_demo ! 0) \<and> veh_address (Vehicles fleet_demo ! 0) \<le> 127"
    by code_simp+
  from h transport_failure_not_rolled_back [where fl = fleet_demo and ident = "''UP844''"
      and c = 0 and wr = 32 and pd = "pidcc_live\<lparr>PiDccState := CHR ''*''\<rparr>" and s = 10
      and m = 0 and name = "''Bell''" and i = 1 and ub = "\<lambda>_. 0" and state = 1 and e = 1]
  show ?thesis by simp
qed

text \<open>
  Claim C9 as stated fails: with a full queue the move of the standing UP844 to step
  10 returns 0 and leaves speed 10 stored; with a failing \<open>write\<close> switching its
  bell on returns 0 and leaves bit F1 stored.
\<close>

theorem transport_failure_not_rolled_back_counterexample:
  "veh_speed (Vehicles fleet_demo ! 0) = 0
   \<and> fst (the (housedcc_fleet_move 32 fleet_demo (pidcc_live\<lparr>PiDccState := CHR ''*''\<rparr>) ''UP844'' 10)) = 0
   \<and> veh_speed (Vehicles (fst (snd (the (housedcc_fleet_move 32 fleet_demo
        (pidcc_live\<lparr>PiDccState := CHR ''*''\<rparr>) ''UP844'' 10)))) ! 0) = 10
   \<and> veh_functions (Vehicles fleet_demo ! 0) = 0
   \<and> fst (housedcc_fleet_set (\<lambda>_. 0) 0 fleet_demo pidcc_live ''UP844'' ''Bell'' 1) = 0
   \<and> veh_functions (Vehicles (fst (snd (housedcc_fleet_set (\<lambda>_. 0) 0 fleet_demo pidcc_live
        ''UP844'' ''Bell'' 1))) ! 0) = 1"
  by code_simp

text \<open>
  Claim C1. Move encoding: for every address from 1 to 127 and every step \<open>s\<close> with
  \<open>\<bar>s\<bar> \<le> 28\<close>, \<open>housedcc_pidcc_move\<close> emits the line \<open>send address byte\<close>,
  the byte being \<open>0x40\<close> OR'd with the direction bit \<open>0x20\<close> exactly when
  \<open>s > 0\<close>, OR'd with the low 5 bits of the table entry at \<open>\<bar>s\<bar>\<close>: the line is
  recorded, and with a pin configured and \<open>write\<close> succeeding it is put on the pipe
  to the worker and the call returns 1 (only the queue-full gate of claim C3 comes
  before). The table has 29 entries whose 5-bit codes are pairwise distinct, and the
  inverse table applied to the 5-bit field of the byte gives \<open>\<bar>s\<bar>\<close> back. For
  \<open>29 \<le> \<bar>s\<bar> \<le> 31\<close> the encoder returns 0 and does nothing, although
  \<open>housedcc_fleet_move\<close>, which clamps at \<open>\<plusminus>31\<close>, accepted the step and
  stored it for the vehicle.
\<close>

theorem move_encoding:
  "1 \<le> a \<and> a \<le> 127 \<longrightarrow>
     (\<bar>s\<bar> \<le> 28 \<longrightarrow>
        (let line = send_line a (0x40 OR (if s > 0 then 0x20 else 0)
                                      OR (speed2cssss ! nat \<bar>s\<bar> AND 0x1f))
         in housedcc_pidcc_move wr st a s =
              Some (if PiDccState st = CHR ''*'' then (0, st)
                    else if housedcc_pidcc_enabled st \<and> wr > 0 then
                      (1, st\<lparr>capture := capture st @ [(''WRITE'', line)],
                             transmitted := transmitted st @
                               [take (nat wr) (line @ [CHR 0x0A])]\<rparr>)
                    else
                      (0, st\<lparr>capture := capture st @
                               [(if housedcc_pidcc_enabled st then ''WRITE'' else ''BUILT'',
                                 line)]\<rparr>)))
      \<and> cssss2speed ((0x40 OR (if s > 0 then 0x20 else 0)
                          OR (speed2cssss ! nat \<bar>s\<bar> AND 0x1f)) AND 0x1f) = Some (nat \<bar>s\<bar>))
   \<and> length speed2cssss = 29
   \<and> inj_on (\<lambda>n. speed2cssss ! n AND 0x1f) {0..28}
   \<and> (29 \<le> \<bar>s\<bar> \<and> \<bar>s\<bar> \<le> 31 \<longrightarrow>
        housedcc_pidcc_move wr st a s = Some (0, st)
      \<and> (housedcc_fleet_find (Vehicles fl) ident = int c \<and> veh_address (Vehicles fl ! c) = a \<longrightarrow>
           housedcc_fleet_move wr fl st ident s =
             Some (0, fl\<lparr>Vehicles := (Vehicles fl)[c := (Vehicles fl ! c)\<lparr>veh_speed := s\<rparr>]\<rparr>,
                   st)))"
proof (intro impI)
  assume a: "1 \<le> a \<and> a \<le> 127"
  then have a1: "1 \<le> a" and a2: "a \<le> 127" by simp_all
  have enc: "\<bar>s\<bar> \<le> 28 \<longrightarrow>
        (let line = send_line a (0x40 OR (if s > 0 then 0x20 else 0)
                                      OR (speed2cssss ! nat \<bar>s\<bar> AND 0x1f))
         in housedcc_pidcc_move wr st a s =
              Some (if PiDccState st = CHR ''*'' then (0, st)
                    else if housedcc_pidcc_enabled st \<and> wr > 0 then
                      (1, st\<lparr>capture := capture st @ [(''WRITE'', line)],
                             transmitted := transmitted st @
                               [take (nat wr) (line @ [CHR 0x0A])]\<rparr>)
                    else
                      (0, st\<lparr>capture := capture st @
                               [(if housedcc_pidcc_enabled st then ''WRITE'' else ''BUILT'',
                                 line)]\<rparr>)))
      \<and> cssss2speed ((0x40 OR (if s > 0 then 0x20 else 0)
                          OR (speed2cssss ! nat \<bar>s\<bar> AND 0x1f)) AND 0x1f) = Some (nat \<bar>s\<bar>)"
  proof
    assume s: "\<bar>s\<bar> \<le> 28"
    then have n: "nat \<bar>s\<bar> < 29" by simp
    have d: "(if s > 0 then 0x20 else 0) = (0::int) \<or> (if s > 0 then 0x20 else 0) = (0x20::int)"
      by simp
    have emit: "(let line = send_line a (0x40 OR (if s > 0 then 0x20 else 0)
                                      OR (speed2cssss ! nat \<bar>s\<bar> AND 0x1f))
         in housedcc_pidcc_move wr st a s =
              Some (if PiDccState st = CHR ''*'' then (0, st)
                    else if housedcc_pidcc_enabled st \<and> wr > 0 then
                      (1, st\<lparr>capture := capture st @ [(''WRITE'', line)],
                             transmitted := transmitted st @
                               [take (nat wr) (line @ [CHR 0x0A])]\<rparr>)
                    else
                      (0, st\<lparr>capture := capture st @
                               [(if housedcc_pidcc_enabled st then ''WRITE'' else ''BUILT'',
                                 line)]\<rparr>)))"
      unfolding move_in_range [OF a1 a2 s]
      by (simp add: housedcc_pidcc_write_def Let_def)
    from emit speed_table_entry(2) [OF n d]
    show "(let line = send_line a (0x40 OR (if s > 0 then 0x20 else 0)
                                      OR (speed2cssss ! nat \<bar>s\<bar> AND 0x1f))
         in housedcc_pidcc_move wr st a s =
              Some (if PiDccState st = CHR ''*'' then (0, st)
                    else if housedcc_pidcc_enabled st \<and> wr > 0 then
                      (1, st\<lparr>capture := capture st @ [(''WRITE'', line)],
                             transmitted := transmitted st @
                               [take (nat wr) (line @ [CHR 0x0A])]\<rparr>)
                    else
                      (0, st\<lparr>capture := capture st @
                               [(if housedcc_pidcc_enabled st then ''WRITE'' else ''BUILT'',
                                 line)]\<rparr>)))
      \<and> cssss2speed ((0x40 OR (if s > 0 then 0x20 else 0)
                          OR (speed2cssss ! nat \<bar>s\<bar> AND 0x1f)) AND 0x1f) = Some (nat \<bar>s\<bar>)"
      by (rule conjI)
  qed
  have len: "length speed2cssss = 29" by (simp add: speed2cssss_def)
  have over: "29 \<le> \<bar>s\<bar> \<and> \<bar>s\<bar> \<le> 31 \<longrightarrow>
        housedcc_pidcc_move wr st a s = Some (0, st)
      \<and> (housedcc_fleet_find (Vehicles fl) ident = int c \<and> veh_address (Vehicles fl ! c) = a \<longrightarrow>
           housedcc_fleet_move wr fl st ident s =
             Some (0, fl\<lparr>Vehicles := (Vehicles fl)[c := (Vehicles fl ! c)\<lparr>veh_speed := s\<rparr>]\<rparr>,
                   st))"
  proof (intro impI conjI)
    assume s: "29 \<le> \<bar>s\<bar> \<and> \<bar>s\<bar> \<le> 31"
    then have s29: "29 \<le> \<bar>s\<bar>" and smin: "s \<noteq> INT_MIN" by (auto simp: INT_MIN_def)
    show "housedcc_pidcc_move wr st a s = Some (0, st)"
      by (rule move_over_limit [OF s29 smin])
    assume f: "housedcc_fleet_find (Vehicles fl) ident = int c \<and> veh_address (Vehicles fl ! c) = a"
    then have found: "housedcc_fleet_find (Vehicles fl) ident = int c"
      and adr: "veh_address (Vehicles fl ! c) = a" by simp_all
    have keep: "(if s < - 31 then - 31 else if s > 31 then 31 else s) = s" using s by auto
    show "housedcc_fleet_move wr fl st ident s =
             Some (0, fl\<lparr>Vehicles := (Vehicles fl)[c := (Vehicles fl ! c)\<lparr>veh_speed := s\<rparr>]\<rparr>,
                   st)"
      unfolding fleet_move_found [OF found] keep adr
      by (simp add: move_over_limit [OF s29 smin])
  qed
  from enc len speed_table_inj over show "(\<bar>s\<bar> \<le> 28 \<longrightarrow>
        (let line = send_line a (0x40 OR (if s > 0 then 0x20 else 0)
                                      OR (speed2cssss ! nat \<bar>s\<bar> AND 0x1f))
         in housedcc_pidcc_move wr st a s =
              Some (if PiDccState st = CHR ''*'' then (0, st)
                    else if housedcc_pidcc_enabled st \<and> wr > 0 then
                      (1, st\<lparr>capture := capture st @ [(''WRITE'', line)],
                             transmitted := transmitted st @
                               [take (nat wr) (line @ [CHR 0x0A])]\<rparr>)
                    else
                      (0, st\<lparr>capture := capture st @
                               [(if housedcc_pidcc_enabled st then ''WRITE'' else ''BUILT'',
                                 line)]\<rparr>)))
      \<and> cssss2speed ((0x40 OR (if s > 0 then 0x20 else 0)
                          OR (speed2cssss ! nat \<bar>s\<bar> AND 0x1f)) AND 0x1f) = Some (nat \<bar>s\<bar>))
   \<and> length speed2cssss = 29
   \<and> inj_on (\<lambda>n. speed2cssss ! n AND 0x1f) {0..28}
   \<and> (29 \<le> \<bar>s\<bar> \<and> \<bar>s\<bar> \<le> 31 \<longrightarrow>
        housedcc_pidcc_move wr st a s = Some (0, st)
      \<and> (housedcc_fleet_find (Vehicles fl) ident = int c \<and> veh_address (Vehicles fl ! c) = a \<longrightarrow>
           housedcc_fleet_move wr fl st ident s =
             Some (0, fl\<lparr>Vehicles := (Vehicles fl)[c := (Vehicles fl ! c)\<lparr>veh_speed := s\<rparr>]\<rparr>,
                   st)))"
    by (intro conjI)
qed

text \<open>UP844 at address 44: step 20 in reverse, then step 30 forward.\<close>

theorem move_encoding_witness:
  "(1::int) \<le> 44 \<and> (44::int) \<le> 127 \<and> \<bar>- 20 :: int\<bar> \<le> 28 \<and> (29::int) \<le> \<bar>30\<bar> \<and> \<bar>30 :: int\<bar> \<le> 31
   \<and> housedcc_fleet_find (Vehicles fleet_demo) ''UP844'' = int 0
   \<and> veh_address (Vehicles fleet_demo ! 0) = 44
   \<and> housedcc_pidcc_move 32 pidcc_live 44 (- 20) =
       Some (1, pidcc_live\<lparr>capture := [(''WRITE'', ''send 44 91'')],
                            transmitted := [''send 44 91'' @ [CHR 0x0A]]\<rparr>)
   \<and> cssss2speed (91 AND 0x1f) = Some 20
   \<and> housedcc_pidcc_move 32 pidcc_live 44 30 = Some (0, pidcc_live)
   \<and> housedcc_fleet_move 32 fleet_demo pidcc_live ''UP844'' 30 =
       Some (0, fleet_demo\<lparr>Vehicles := [(Vehicles fleet_demo ! 0)\<lparr>veh_speed := 30\<rparr>]\<rparr>,
             pidcc_live)"
proof -
  have h: "housedcc_fleet_find (Vehicles fleet_demo) ''UP844'' = int 0"
    "veh_address (Vehicles fleet_demo ! 0) = 44"
    "PiDccState pidcc_live \<noteq> CHR ''*''"
    "housedcc_pidcc_enabled pidcc_live"
    "capture pidcc_live = []" "transmitted pidcc_live = []"
    "speed2cssss ! 20 = 27"
    "(64::int) OR 27 = 91" "(91::int) AND 31 = 27" "(27::int) AND 31 = 27"
    "send_line 44 91 = ''send 44 91''"
    "take 32 (''send 44 91'' @ [CHR 0x0A]) = ''send 44 91'' @ [CHR 0x0A]"
    "(Vehicles fleet_demo)[0 := (Vehicles fleet_demo ! 0)\<lparr>veh_speed := 30\<rparr>] =
       [(Vehicles fleet_demo ! 0)\<lparr>veh_speed := 30\<rparr>]"
    by code_simp+
  from h
    move_encoding [where a = 44 and s = "- 20" and wr = 32 and st = pidcc_live
      and fl = fleet_demo and ident = "''UP844''" and c = 0]
    move_encoding [where a = 44 and s = 30 and wr = 32 and st = pidcc_live
      and fl = fleet_demo and ident = "''UP844''" and c = 0]
  show ?thesis by (simp add: Let_def)
qed

end
